theory Spec2Isabelle
  imports Complex_Main
begin

section \<open>Python values, errors and the data bundle\<close>

text \<open>
  The two formulation classes \<^verbatim>\<open>DARPModelLB\<close> (darp_model.py) and \<^verbatim>\<open>DARPModelLAEB\<close>
  (darp_model_laeb.py) are embedded as functions over explicit values. An exception is a
  value \<open>Inl err\<close> of a sum type; a normal result is \<open>Inr v\<close>. Numbers are ideal reals.

  The Pyomo library is not part of the repository. Its components are modelled as plain
  data: a \<^verbatim>\<open>Set\<close> is the list of its members in insertion order with later duplicates
  dropped, a \<^verbatim>\<open>Param\<close> is the dictionary it was initialised from (reading an index without
  an entry raises), a \<^verbatim>\<open>Var\<close> is a store from its index set to an optional number (no number
  before a solver has assigned one, and \<^verbatim>\<open>value\<close> raises on it), and a constraint is the
  expression tree its rule returns.
\<close>

datatype error =
    ValueError string
  | KeyError string
  | TypeError string
  | UninitializedValue string

definition ebind :: "error + 'a \<Rightarrow> ('a \<Rightarrow> error + 'b) \<Rightarrow> error + 'b" where
  "ebind r f = (case r of Inl err \<Rightarrow> Inl err | Inr v \<Rightarrow> f v)"

fun emap :: "('a \<Rightarrow> error + 'b) \<Rightarrow> 'a list \<Rightarrow> error + 'b list" where
  "emap f [] = Inr []"
| "emap f (y # ys) = ebind (f y) (\<lambda>v. ebind (emap f ys) (\<lambda>vs. Inr (v # vs)))"

text \<open>An event of the LAEB graph is a tuple whose first component is the location; the
  rest of the tuple is the on-board state. The depot event is \<^verbatim>\<open>('0',)\<close>.\<close>

type_synonym event = "string \<times> int list"

definition depot_event :: event where
  "depot_event = (''0'', [])"

datatype dval =
    DInts "int list"
  | DStrs "string list"
  | DNum real
  | DArcTab "((string \<times> string) \<times> real) list"
  | DNodeTab "(string \<times> real) list"
  | DReqTab "(int \<times> real) list"
  | DEvents "event list"
  | DEvArcs "(event \<times> event) list"
  | DEvTab "((event \<times> event) \<times> real) list"
  | DMatrix "(string \<times> (string \<times> real) list) list"

type_synonym databundle = "string \<rightharpoonup> dval"

definition get_key :: "databundle \<Rightarrow> string \<Rightarrow> error + dval" where
  "get_key d k = (case d k of None \<Rightarrow> Inl (KeyError k) | Some v \<Rightarrow> Inr v)"

definition as_ints :: "dval \<Rightarrow> error + int list" where
  "as_ints v = (case v of DInts xs \<Rightarrow> Inr xs | _ \<Rightarrow> Inl (TypeError ''int list''))"

definition as_strs :: "dval \<Rightarrow> error + string list" where
  "as_strs v = (case v of DStrs xs \<Rightarrow> Inr xs | _ \<Rightarrow> Inl (TypeError ''str list''))"

definition as_num :: "dval \<Rightarrow> error + real" where
  "as_num v = (case v of DNum r \<Rightarrow> Inr r | _ \<Rightarrow> Inl (TypeError ''number''))"

definition as_arctab :: "dval \<Rightarrow> error + ((string \<times> string) \<times> real) list" where
  "as_arctab v = (case v of DArcTab xs \<Rightarrow> Inr xs | _ \<Rightarrow> Inl (TypeError ''arc table''))"

definition as_nodetab :: "dval \<Rightarrow> error + (string \<times> real) list" where
  "as_nodetab v = (case v of DNodeTab xs \<Rightarrow> Inr xs | _ \<Rightarrow> Inl (TypeError ''node table''))"

definition as_reqtab :: "dval \<Rightarrow> error + (int \<times> real) list" where
  "as_reqtab v = (case v of DReqTab xs \<Rightarrow> Inr xs | _ \<Rightarrow> Inl (TypeError ''request table''))"

definition as_events :: "dval \<Rightarrow> error + event list" where
  "as_events v = (case v of DEvents xs \<Rightarrow> Inr xs | _ \<Rightarrow> Inl (TypeError ''event list''))"

definition as_evarcs :: "dval \<Rightarrow> error + (event \<times> event) list" where
  "as_evarcs v = (case v of DEvArcs xs \<Rightarrow> Inr xs | _ \<Rightarrow> Inl (TypeError ''event arcs''))"

definition as_evtab :: "dval \<Rightarrow> error + ((event \<times> event) \<times> real) list" where
  "as_evtab v = (case v of DEvTab xs \<Rightarrow> Inr xs | _ \<Rightarrow> Inl (TypeError ''event arc table''))"

definition as_matrix :: "dval \<Rightarrow> error + (string \<times> (string \<times> real) list) list" where
  "as_matrix v = (case v of DMatrix xs \<Rightarrow> Inr xs | _ \<Rightarrow> Inl (TypeError ''matrix''))"

subsection \<open>Formatting request identifiers\<close>

text \<open>\<^verbatim>\<open>f"{i}+"\<close> and \<^verbatim>\<open>f"{i}-"\<close>: the decimal form of the request identifier followed by
  the sign character.\<close>

definition digit_char :: "nat \<Rightarrow> char" where
  "digit_char n = ''0123456789'' ! n"

function str_nat :: "nat \<Rightarrow> string" where
  "str_nat n = (if n < 10 then [digit_char n] else str_nat (n div 10) @ [digit_char (n mod 10)])"
  by pat_completeness auto
termination
  by (relation "measure (\<lambda>n. n)") auto

declare str_nat.simps [simp del]

definition str_int :: "int \<Rightarrow> string" where
  "str_int i = (if i < 0 then CHR ''-'' # str_nat (nat (- i)) else str_nat (nat i))"

definition pickup_name :: "int \<Rightarrow> string" where
  "pickup_name i = str_int i @ ''+''"

definition delivery_name :: "int \<Rightarrow> string" where
  "delivery_name i = str_int i @ ''-''"

section \<open>Parameter validation\<close>

text \<open>\<^verbatim>\<open>validate_data\<close> of both classes: walk the required keys in list order and raise
  \<^verbatim>\<open>ValueError\<close> with the class's message prefix at the first key that is not in the
  dictionary. The function returns nothing and writes nothing.\<close>

fun validate_keys :: "string \<Rightarrow> string list \<Rightarrow> databundle \<Rightarrow> error + unit" where
  "validate_keys msg [] d = Inr ()"
| "validate_keys msg (key # keys) d =
     (if d key = None then Inl (ValueError (msg @ key)) else validate_keys msg keys d)"

definition lb_required_keys :: "string list" where
  "lb_required_keys =
     [''Requests'', ''P'', ''D'', ''costs'', ''travel_times'',
      ''service_times'', ''load_change'', ''tw_start'',
      ''tw_end'', ''max_ride_time'', ''capacity'', ''vehicles'']"

definition lb_validate_data :: "databundle \<Rightarrow> error + unit" where
  "lb_validate_data d = validate_keys ''Missing required data key: '' lb_required_keys d"

definition laeb_required_keys :: "string list" where
  "laeb_required_keys =
     [''V'', ''A'', ''Requests'', ''P'', ''D'', ''J'', ''costs'', ''travel_times'',
      ''service_times'', ''tw_start'', ''tw_end'', ''max_ride_time'', ''vehicles'']"

definition laeb_validate_data :: "databundle \<Rightarrow> error + unit" where
  "laeb_validate_data d = validate_keys ''Falta la clave de datos requerida: '' laeb_required_keys d"

section \<open>Pyomo sets, parameters, variables and expressions\<close>

fun pyomo_set :: "'a list \<Rightarrow> 'a list" where
  "pyomo_set [] = []"
| "pyomo_set (y # ys) = y # pyomo_set (filter (\<lambda>z. z \<noteq> y) ys)"

definition set_union :: "'a list \<Rightarrow> 'a list \<Rightarrow> 'a list" where
  "set_union xs ys = xs @ filter (\<lambda>y. y \<notin> set xs) ys"

definition param :: "string \<Rightarrow> ('k \<times> real) list \<Rightarrow> 'k \<Rightarrow> error + real" where
  "param name tab k =
     (case map_of tab k of None \<Rightarrow> Inl (ValueError (''Param value undefined: '' @ name))
      | Some v \<Rightarrow> Inr v)"

definition value_of :: "string \<Rightarrow> ('k \<times> real option) list \<Rightarrow> 'k \<Rightarrow> error + real" where
  "value_of name store k =
     (case map_of store k of None \<Rightarrow> Inl (KeyError name)
      | Some None \<Rightarrow> Inl (UninitializedValue name)
      | Some (Some r) \<Rightarrow> Inr r)"

datatype var = VX string string | VB string | VQ string | VXe event event

datatype expr =
    Const real
  | Var var
  | Add expr expr
  | Sub expr expr
  | Mul expr expr
  | Sum "expr list"

datatype con =
    Le expr expr
  | Ge expr expr
  | Eq expr expr
  | Range real expr real

fun eval :: "(var \<Rightarrow> real) \<Rightarrow> expr \<Rightarrow> real" where
  "eval v (Const r) = r"
| "eval v (Var y) = v y"
| "eval v (Add a b) = eval v a + eval v b"
| "eval v (Sub a b) = eval v a - eval v b"
| "eval v (Mul a b) = eval v a * eval v b"
| "eval v (Sum es) = sum_list (map (eval v) es)"

fun holds :: "(var \<Rightarrow> real) \<Rightarrow> con \<Rightarrow> bool" where
  "holds v (Le a b) = (eval v a \<le> eval v b)"
| "holds v (Ge a b) = (eval v a \<ge> eval v b)"
| "holds v (Eq a b) = (eval v a = eval v b)"
| "holds v (Range lo a hi) = (lo \<le> eval v a \<and> eval v a \<le> hi)"

section \<open>The location-based (LB) formulation\<close>

subsection \<open>Node and arc sets\<close>

text \<open>Lines 66-75 of darp_model.py: the node universe and the valid arcs.\<close>

definition build_J_minus_depot :: "string list \<Rightarrow> string list \<Rightarrow> string list" where
  "build_J_minus_depot P D = set_union (pyomo_set P) (pyomo_set D)"

definition build_J :: "string list \<Rightarrow> string list \<Rightarrow> string list" where
  "build_J P D = pyomo_set ([''0_start''] @ build_J_minus_depot P D @ [''0_end''])"

definition build_A :: "string list \<Rightarrow> (string \<times> string) list" where
  "build_A J = pyomo_set [(i, j). i \<leftarrow> J, j \<leftarrow> J, i \<noteq> j \<and> i \<noteq> ''0_end'' \<and> j \<noteq> ''0_start'']"

subsection \<open>Subset enumeration\<close>

text \<open>\<^verbatim>\<open>itertools.combinations(xs, r)\<close>: the sublists of length \<open>r\<close>, positions increasing,
  in lexicographic order of positions.\<close>

fun combinations :: "'a list \<Rightarrow> nat \<Rightarrow> 'a list list" where
  "combinations ys 0 = [[]]"
| "combinations [] (Suc r) = []"
| "combinations (y # ys) (Suc r) = map ((#) y) (combinations ys r) @ combinations ys (Suc r)"

text \<open>\<^verbatim>\<open>S = set(subset); S.add(start_node); tuple(S)\<close>: each member once. Python lists the
  members of a set in an order of its own; the order of first insertion stands for it here,
  and nothing below depends on the order.\<close>

definition tuple_of_set :: "'a list \<Rightarrow> 'a list" where
  "tuple_of_set ys = pyomo_set ys"

definition has_delivery_without_pickup :: "int list \<Rightarrow> string list \<Rightarrow> bool" where
  "has_delivery_without_pickup Requests S =
     list_ex (\<lambda>i. delivery_name i \<in> set S \<and> pickup_name i \<notin> set S) Requests"

definition s_sets_of_size :: "int list \<Rightarrow> string list \<Rightarrow> nat \<Rightarrow> string list list" where
  "s_sets_of_size Requests all_nodes r =
     filter (has_delivery_without_pickup Requests)
       (map (\<lambda>subset. tuple_of_set (subset @ [''0_start''])) (combinations all_nodes r))"

definition s_sets :: "int list \<Rightarrow> string list \<Rightarrow> string list \<Rightarrow> string list list" where
  "s_sets Requests P D =
     (let all_nodes = P @ D
      in concat (map (s_sets_of_size Requests all_nodes) [1 ..< length all_nodes + 1]))"

text \<open>\<^verbatim>\<open>_generate_s_sets\<close> reads \<^verbatim>\<open>P\<close> and \<^verbatim>\<open>D\<close> first; the requests are read inside
  the loop over the subsets, so only when there is a customer node at all.\<close>

definition generate_s_sets :: "databundle \<Rightarrow> error + string list list" where
  "generate_s_sets d =
     ebind (ebind (get_key d ''P'') as_strs) (\<lambda>P.
     ebind (ebind (get_key d ''D'') as_strs) (\<lambda>D.
       if P @ D = [] then Inr []
       else ebind (ebind (get_key d ''Requests'') as_ints) (\<lambda>Requests.
              Inr (s_sets Requests P D))))"

subsection \<open>The model object\<close>

record lb_model =
  lb_components :: "string list"
  lb_Requests :: "int list"
  lb_P :: "string list"
  lb_D :: "string list"
  lb_J_minus_depot :: "string list"
  lb_J :: "string list"
  lb_A :: "(string \<times> string) list"
  lb_c :: "((string \<times> string) \<times> real) list"
  lb_t :: "((string \<times> string) \<times> real) list"
  lb_s :: "(string \<times> real) list"
  lb_q :: "(string \<times> real) list"
  lb_e :: "(string \<times> real) list"
  lb_l :: "(string \<times> real) list"
  lb_L :: "(int \<times> real) list"
  lb_Q_max :: real
  lb_K :: real
  lb_x :: "((string \<times> string) \<times> real option) list"
  lb_B :: "(string \<times> real option) list"
  lb_Q :: "(string \<times> real option) list"
  lb_obj :: expr
  lb_visit_once :: "con list"
  lb_leave_once :: "con list"
  lb_fleet_limit :: "con list"
  lb_S_Indices :: "nat list"
  lb_S_Sets :: "(nat \<times> string list) list"
  lb_precedence_pairing :: "con list"
  lb_time_consistency :: "con list"
  lb_load_consistency :: "con list"
  lb_service_windows :: "con list"
  lb_capacity_bound :: "con list"
  lb_max_ride_duration :: "con list"

text \<open>Reading a variable at an index outside its index set raises \<^verbatim>\<open>KeyError\<close>.\<close>

definition var_at :: "string \<Rightarrow> 'k list \<Rightarrow> 'k \<Rightarrow> var \<Rightarrow> error + expr" where
  "var_at name idx k y = (if k \<in> set idx then Inr (Var y) else Inl (KeyError name))"

subsection \<open>Constraint rules\<close>

definition objective_term :: "lb_model \<Rightarrow> string \<times> string \<Rightarrow> error + expr" where
  "objective_term m a =
     (case a of (i, j) \<Rightarrow> ebind (param ''c'' (lb_c m) (i, j)) (\<lambda>cij. Inr (Mul (Const cij) (Var (VX i j)))))"

definition visit_once :: "lb_model \<Rightarrow> string \<Rightarrow> con" where
  "visit_once m j = Eq (Sum [Var (VX i j). i \<leftarrow> lb_J m, (i, j) \<in> set (lb_A m)]) (Const 1)"

definition leave_once :: "lb_model \<Rightarrow> string \<Rightarrow> con" where
  "leave_once m i = Eq (Sum [Var (VX i j). j \<leftarrow> lb_J m, (i, j) \<in> set (lb_A m)]) (Const 1)"

definition fleet_limit :: "lb_model \<Rightarrow> con" where
  "fleet_limit m =
     Le (Sum [Var (VX ''0_start'' j). j \<leftarrow> lb_P m, (''0_start'', j) \<in> set (lb_A m)]) (Const (lb_K m))"

definition arcs_in_S :: "lb_model \<Rightarrow> string list \<Rightarrow> (string \<times> string) list" where
  "arcs_in_S m S = [(i, j). i \<leftarrow> S, j \<leftarrow> S, (i, j) \<in> set (lb_A m)]"

definition precedence_pairing :: "lb_model \<Rightarrow> nat \<Rightarrow> error + con" where
  "precedence_pairing m idx =
     (case map_of (lb_S_Sets m) idx of
        None \<Rightarrow> Inl (ValueError ''Param value undefined: S_Sets'')
      | Some S \<Rightarrow>
          Inr (Le (Sum [Var (VX i j). (i, j) \<leftarrow> arcs_in_S m S]) (Const (real (length S) - 2))))"

definition time_consistency :: "lb_model \<Rightarrow> string \<times> string \<Rightarrow> error + con" where
  "time_consistency m a =
     (case a of (i, j) \<Rightarrow>
        ebind (param ''l'' (lb_l m) i) (\<lambda>li.
        ebind (param ''s'' (lb_s m) i) (\<lambda>si.
        ebind (param ''t'' (lb_t m) (i, j)) (\<lambda>tij.
        ebind (param ''e'' (lb_e m) j) (\<lambda>ej.
          let M_ij = li + si + tij - ej
          in Inr (Le (Sub (Add (Add (Var (VB i)) (Const si)) (Const tij))
                          (Mul (Const M_ij) (Sub (Const 1) (Var (VX i j)))))
                     (Var (VB j))))))))"

definition load_consistency :: "lb_model \<Rightarrow> string \<times> string \<Rightarrow> error + con" where
  "load_consistency m a =
     (case a of (i, j) \<Rightarrow>
        ebind (param ''q'' (lb_q m) j) (\<lambda>qj.
          Inr (Le (Sub (Add (Var (VQ i)) (Const qj))
                       (Mul (Const (lb_Q_max m)) (Sub (Const 1) (Var (VX i j)))))
                  (Var (VQ j)))))"

definition service_windows :: "lb_model \<Rightarrow> string \<Rightarrow> error + con" where
  "service_windows m j =
     ebind (param ''e'' (lb_e m) j) (\<lambda>ej.
     ebind (param ''l'' (lb_l m) j) (\<lambda>lj.
       Inr (Range ej (Var (VB j)) lj)))"

definition capacity_bound :: "lb_model \<Rightarrow> string \<Rightarrow> error + con" where
  "capacity_bound m j =
     ebind (param ''q'' (lb_q m) j) (\<lambda>qj.
       let lower = max 0 qj; upper = min (lb_Q_max m) (lb_Q_max m + qj)
       in Inr (Range lower (Var (VQ j)) upper))"

definition max_ride_duration :: "lb_model \<Rightarrow> int \<Rightarrow> error + con" where
  "max_ride_duration m r =
     (let p = pickup_name r; d = delivery_name r
      in ebind (var_at ''B'' (lb_J m) d (VB d)) (\<lambda>Bd.
         ebind (var_at ''B'' (lb_J m) p (VB p)) (\<lambda>Bp.
         ebind (param ''s'' (lb_s m) p) (\<lambda>sp.
         ebind (param ''L'' (lb_L m) r) (\<lambda>Lr.
           Inr (Le (Sub Bd (Add Bp (Const sp))) (Const Lr)))))))"

subsection \<open>Building the model\<close>

text \<open>\<^verbatim>\<open>_build_model\<close>: every attribute set on the Pyomo model, in the order of the source.
  The sets, parameters and variables come first (no variable has a value yet), then the
  objective and the constraint families; the first exception aborts the build.\<close>

definition lb_component_names :: "string list" where
  "lb_component_names =
     [''Requests'', ''P'', ''D'', ''J_minus_depot'', ''J'', ''A'',
      ''c'', ''t'', ''s'', ''q'', ''e'', ''l'', ''L'', ''Q_max'', ''K'',
      ''x'', ''B'', ''Q'', ''obj'',
      ''visit_once'', ''leave_once'', ''fleet_limit'',
      ''S_Indices'', ''S_Sets'', ''precedence_pairing'',
      ''time_consistency'', ''load_consistency'', ''service_windows'',
      ''capacity_bound'', ''max_ride_duration'']"

definition lb_declare :: "int list \<Rightarrow> string list \<Rightarrow> string list \<Rightarrow>
    ((string \<times> string) \<times> real) list \<Rightarrow> ((string \<times> string) \<times> real) list \<Rightarrow>
    (string \<times> real) list \<Rightarrow> (string \<times> real) list \<Rightarrow> (string \<times> real) list \<Rightarrow>
    (string \<times> real) list \<Rightarrow> (int \<times> real) list \<Rightarrow> real \<Rightarrow> real \<Rightarrow> lb_model" where
  "lb_declare Requests P D c t s q e l L Q_max K =
     (let J = build_J P D; A = build_A J
      in \<lparr> lb_components = lb_component_names,
           lb_Requests = pyomo_set Requests, lb_P = pyomo_set P, lb_D = pyomo_set D,
           lb_J_minus_depot = build_J_minus_depot P D, lb_J = J, lb_A = A,
           lb_c = c, lb_t = t, lb_s = s, lb_q = q, lb_e = e, lb_l = l, lb_L = L,
           lb_Q_max = Q_max, lb_K = K,
           lb_x = map (\<lambda>a. (a, None)) A,
           lb_B = map (\<lambda>j. (j, None)) J,
           lb_Q = map (\<lambda>j. (j, None)) J,
           lb_obj = Sum [],
           lb_visit_once = [], lb_leave_once = [], lb_fleet_limit = [],
           lb_S_Indices = [], lb_S_Sets = [], lb_precedence_pairing = [],
           lb_time_consistency = [], lb_load_consistency = [], lb_service_windows = [],
           lb_capacity_bound = [], lb_max_ride_duration = [] \<rparr>)"

definition lb_constrain :: "databundle \<Rightarrow> lb_model \<Rightarrow> error + lb_model" where
  "lb_constrain d m0 =
     ebind (emap (objective_term m0) (lb_A m0)) (\<lambda>terms.
     ebind (generate_s_sets d) (\<lambda>ss.
       let m1 = m0 \<lparr> lb_S_Indices := [0 ..< length ss], lb_S_Sets := zip [0 ..< length ss] ss \<rparr>
       in
     ebind (emap (precedence_pairing m1) (lb_S_Indices m1)) (\<lambda>pp.
     ebind (emap (time_consistency m1) (lb_A m1)) (\<lambda>tc.
     ebind (emap (load_consistency m1) (lb_A m1)) (\<lambda>lc.
     ebind (emap (service_windows m1) (lb_J m1)) (\<lambda>sw.
     ebind (emap (capacity_bound m1) (lb_J m1)) (\<lambda>cb.
     ebind (emap (max_ride_duration m1) (lb_Requests m1)) (\<lambda>mr.
       Inr (m1 \<lparr> lb_obj := Sum terms,
                 lb_visit_once := map (visit_once m1) (lb_J_minus_depot m1),
                 lb_leave_once := map (leave_once m1) (lb_J_minus_depot m1),
                 lb_fleet_limit := [fleet_limit m1],
                 lb_precedence_pairing := pp,
                 lb_time_consistency := tc,
                 lb_load_consistency := lc,
                 lb_service_windows := sw,
                 lb_capacity_bound := cb,
                 lb_max_ride_duration := mr \<rparr>)))))))))"

definition lb_build_model :: "databundle \<Rightarrow> error + lb_model" where
  "lb_build_model d =
     ebind (ebind (get_key d ''Requests'') as_ints) (\<lambda>Requests.
     ebind (ebind (get_key d ''P'') as_strs) (\<lambda>P.
     ebind (ebind (get_key d ''D'') as_strs) (\<lambda>D.
     ebind (ebind (get_key d ''costs'') as_arctab) (\<lambda>c.
     ebind (ebind (get_key d ''travel_times'') as_arctab) (\<lambda>t.
     ebind (ebind (get_key d ''service_times'') as_nodetab) (\<lambda>s.
     ebind (ebind (get_key d ''load_change'') as_nodetab) (\<lambda>q.
     ebind (ebind (get_key d ''tw_start'') as_nodetab) (\<lambda>e.
     ebind (ebind (get_key d ''tw_end'') as_nodetab) (\<lambda>l.
     ebind (ebind (get_key d ''max_ride_time'') as_reqtab) (\<lambda>L.
     ebind (ebind (get_key d ''capacity'') as_num) (\<lambda>Q_max.
     ebind (ebind (get_key d ''vehicles'') as_num) (\<lambda>K.
       lb_constrain d (lb_declare Requests P D c t s q e l L Q_max K)))))))))))))"

text \<open>The object: \<^verbatim>\<open>self.data\<close> and \<^verbatim>\<open>self.model\<close>. \<^verbatim>\<open>__init__\<close> stores the data,
  validates it and builds the model; an exception leaves no object.\<close>

record lb_object =
  lb_self_data :: databundle
  lb_self_model :: lb_model

definition lb_init :: "databundle \<Rightarrow> error + lb_object" where
  "lb_init d =
     ebind (lb_validate_data d) (\<lambda>_.
     ebind (lb_build_model d) (\<lambda>m.
       Inr \<lparr> lb_self_data = d, lb_self_model = m \<rparr>))"

subsection \<open>Feasible assignments\<close>

text \<open>An assignment gives every variable a number. It is feasible for a built model when
  it respects the variable domains (\<open>x\<close> binary, \<open>B\<close> and \<open>Q\<close> non-negative) and every
  constraint of every family.\<close>

definition lb_constraints :: "lb_model \<Rightarrow> con list" where
  "lb_constraints m =
     lb_visit_once m @ lb_leave_once m @ lb_fleet_limit m @ lb_precedence_pairing m @
     lb_time_consistency m @ lb_load_consistency m @ lb_service_windows m @
     lb_capacity_bound m @ lb_max_ride_duration m"

definition lb_domains :: "lb_model \<Rightarrow> (var \<Rightarrow> real) \<Rightarrow> bool" where
  "lb_domains m v =
     (list_all (\<lambda>(i, j). v (VX i j) = 0 \<or> v (VX i j) = 1) (lb_A m) \<and>
      list_all (\<lambda>j. 0 \<le> v (VB j)) (lb_J m) \<and>
      list_all (\<lambda>j. 0 \<le> v (VQ j)) (lb_J m))"

definition lb_feasible :: "lb_model \<Rightarrow> (var \<Rightarrow> real) \<Rightarrow> bool" where
  "lb_feasible m v = (lb_domains m v \<and> list_all (holds v) (lb_constraints m))"

subsection \<open>Route reconstruction\<close>

text \<open>\<^verbatim>\<open>get_route_summary\<close> of darp_model.py. The first loop turns every arc whose value is
  above one half into a leg; \<^verbatim>\<open>value\<close> raises on a variable that has no value. The second
  loop starts a walk at every leg that leaves \<^verbatim>\<open>'0_start'\<close>. The walk is the source's
  \<^verbatim>\<open>while\<close> loop; it need not end, so it returns an option and \<open>None\<close> stands for a
  walk that never returns.\<close>

record leg =
  leg_from :: string
  leg_to :: string
  depart_time :: real
  arrive_time :: real
  load_after :: real

datatype 'a reconstruction = Message string | Routes 'a

type_synonym lb_route = "string list \<times> real list \<times> real list"

fun lb_collect_routes :: "lb_model \<Rightarrow> ((string \<times> string) \<times> real option) list \<Rightarrow> error + leg list" where
  "lb_collect_routes m [] = Inr []"
| "lb_collect_routes m (((i, j), _) # rest) =
     ebind (value_of ''x'' (lb_x m) (i, j)) (\<lambda>xij.
       if xij > 1 / 2 then
         ebind (value_of ''B'' (lb_B m) i) (\<lambda>Bi.
         ebind (value_of ''B'' (lb_B m) j) (\<lambda>Bj.
         ebind (value_of ''Q'' (lb_Q m) j) (\<lambda>Qj.
         ebind (lb_collect_routes m rest) (\<lambda>routes.
           Inr (\<lparr> leg_from = i, leg_to = j, depart_time = Bi,
                   arrive_time = Bj, load_after = Qj \<rparr> # routes)))))
       else lb_collect_routes m rest)"

partial_function (option) lb_walk ::
    "leg list \<Rightarrow> string \<Rightarrow> string list \<Rightarrow> real list \<Rightarrow> real list \<Rightarrow> lb_route option" where
  "lb_walk routes current path times' loads =
     (if current \<noteq> ''0_end'' then
        (case find (\<lambda>r. leg_from r = current) routes of
           None \<Rightarrow> Some (path, times', loads)
         | Some next_leg \<Rightarrow>
             lb_walk routes (leg_to next_leg) (path @ [leg_to next_leg])
               (times' @ [arrive_time next_leg]) (loads @ [load_after next_leg]))
      else Some (path, times', loads))"

declare lb_walk.simps [code]


text \<open>\<^verbatim>\<open>summary[key] = entry\<close> on a dictionary kept in insertion order. The key
  \<^verbatim>\<open>path[1]\<close> always exists: a walk starts from a two-node path and only appends to it.\<close>

fun dict_set :: "('k \<times> 'v) list \<Rightarrow> 'k \<Rightarrow> 'v \<Rightarrow> ('k \<times> 'v) list" where
  "dict_set [] k v = [(k, v)]"
| "dict_set ((k', v') # kvs) k v = (if k' = k then (k, v) # kvs else (k', v') # dict_set kvs k v)"

fun lb_group :: "leg list \<Rightarrow> leg list \<Rightarrow> (string \<times> lb_route) list \<Rightarrow> (string \<times> lb_route) list option" where
  "lb_group routes [] summary = Some summary"
| "lb_group routes (route # rest) summary =
     (if leg_from route = ''0_start'' then
        (case lb_walk routes (leg_to route) [leg_from route, leg_to route]
                [depart_time route, arrive_time route] [0, load_after route] of
           None \<Rightarrow> None
         | Some (path, times', loads) \<Rightarrow>
             lb_group routes rest (dict_set summary (path ! 1) (path, times', loads)))
      else lb_group routes rest summary)"

definition lb_get_route_summary ::
    "lb_object \<Rightarrow> (error + (string \<times> lb_route) list reconstruction) option" where
  "lb_get_route_summary self =
     (let m = lb_self_model self
      in if ''x'' \<notin> set (lb_components m) then Some (Inr (Message ''Model not solved yet.''))
         else (case lb_collect_routes m (lb_x m) of
                 Inl err \<Rightarrow> Some (Inl err)
               | Inr routes \<Rightarrow>
                   (case lb_group routes routes [] of
                      None \<Rightarrow> None
                    | Some summary \<Rightarrow> Some (Inr (Routes summary)))))"

section \<open>The event-based (LAEB) formulation\<close>

subsection \<open>The model object\<close>

record laeb_model =
  laeb_components :: "string list"
  laeb_V :: "event list"
  laeb_A :: "(event \<times> event) list"
  laeb_R :: "int list"
  laeb_J :: "string list"
  laeb_V_pickup :: "(int \<times> event list) list"
  laeb_V_delivery :: "(int \<times> event list) list"
  laeb_c :: "((event \<times> event) \<times> real) list"
  laeb_t :: "((event \<times> event) \<times> real) list"
  laeb_s :: "(string \<times> real) list"
  laeb_e :: "(string \<times> real) list"
  laeb_l :: "(string \<times> real) list"
  laeb_L_max :: "(int \<times> real) list"
  laeb_K :: real
  laeb_x :: "((event \<times> event) \<times> real option) list"
  laeb_B_bar :: "(string \<times> real option) list"
  laeb_obj :: expr
  laeb_flow_conservation :: "con list"
  laeb_visit_pickups :: "con list"
  laeb_fleet_limit :: "con list"
  laeb_time_consistency :: "con list"
  laeb_time_windows :: "con list"
  laeb_max_ride_time :: "con list"

subsection \<open>Constraint rules\<close>

text \<open>A rule that returns \<^verbatim>\<open>Constraint.Skip\<close> emits nothing for its index: \<open>None\<close>.\<close>

definition laeb_objective_term :: "laeb_model \<Rightarrow> event \<times> event \<Rightarrow> error + expr" where
  "laeb_objective_term m a =
     ebind (param ''c'' (laeb_c m) a) (\<lambda>ca. Inr (Mul (Const ca) (Var (VXe (fst a) (snd a)))))"

definition flow_conservation :: "laeb_model \<Rightarrow> event \<Rightarrow> con option" where
  "flow_conservation m v =
     (if v = depot_event then None
      else
        let in_flow = Sum [Var (VXe u v_inner). (u, v_inner) \<leftarrow> laeb_A m, v_inner = v];
            out_flow = Sum [Var (VXe v_inner w). (v_inner, w) \<leftarrow> laeb_A m, v_inner = v]
        in Some (Eq (Sub in_flow out_flow) (Const 0)))"

definition visit_pickups :: "laeb_model \<Rightarrow> int \<Rightarrow> error + con" where
  "visit_pickups m i =
     (case map_of (laeb_V_pickup m) i of
        None \<Rightarrow> Inl (KeyError ''V_pickup'')
      | Some evs \<Rightarrow>
          let arcs_to_pickup = [a. a \<leftarrow> laeb_A m, snd a \<in> set evs]
          in Inr (Eq (Sum [Var (VXe (fst a) (snd a)). a \<leftarrow> arcs_to_pickup]) (Const 1)))"

definition laeb_fleet_limit_rule :: "laeb_model \<Rightarrow> con" where
  "laeb_fleet_limit_rule m =
     (let out_arcs = [a. a \<leftarrow> laeb_A m, fst a = depot_event]
      in Le (Sum [Var (VXe (fst a) (snd a)). a \<leftarrow> out_arcs]) (Const (laeb_K m)))"

definition travel_matrix_at :: "databundle \<Rightarrow> string \<Rightarrow> string \<Rightarrow> error + real" where
  "travel_matrix_at d i j =
     ebind (ebind (get_key d ''travel_matrix'') as_matrix) (\<lambda>mat.
       case map_of mat i of
         None \<Rightarrow> Inl (KeyError i)
       | Some row \<Rightarrow> (case map_of row j of None \<Rightarrow> Inl (KeyError j) | Some r \<Rightarrow> Inr r))"

definition relevant_arcs :: "laeb_model \<Rightarrow> string \<Rightarrow> string \<Rightarrow> (event \<times> event) list" where
  "relevant_arcs m i j = [a. a \<leftarrow> laeb_A m, fst (fst a) = i \<and> fst (snd a) = j]"

definition laeb_time_consistency_rule ::
    "databundle \<Rightarrow> laeb_model \<Rightarrow> string \<times> string \<Rightarrow> error + con option" where
  "laeb_time_consistency_rule d m ij =
     (case ij of (i, j) \<Rightarrow>
        if relevant_arcs m i j = [] then Inr None
        else
          ebind (param ''l'' (laeb_l m) i) (\<lambda>li.
          ebind (param ''s'' (laeb_s m) i) (\<lambda>si.
          ebind (travel_matrix_at d i j) (\<lambda>tij.
          ebind (param ''e'' (laeb_e m) j) (\<lambda>ej.
            let M_ij = li + si + tij - ej
            in Inr (Some (Ge (Var (VB j))
                     (Sub (Add (Add (Var (VB i)) (Const si)) (Const tij))
                          (Mul (Const M_ij)
                               (Sub (Const 1)
                                    (Sum [Var (VXe (fst a) (snd a)). a \<leftarrow> relevant_arcs m i j])))))))))))"

definition time_windows :: "laeb_model \<Rightarrow> string \<Rightarrow> error + con" where
  "time_windows m j =
     ebind (param ''e'' (laeb_e m) j) (\<lambda>ej.
     ebind (param ''l'' (laeb_l m) j) (\<lambda>lj.
       Inr (Range ej (Var (VB j)) lj)))"

definition max_ride_time :: "laeb_model \<Rightarrow> int \<Rightarrow> error + con" where
  "max_ride_time m i =
     (let p = pickup_name i; d = delivery_name i
      in ebind (var_at ''B_bar'' (laeb_J m) d (VB d)) (\<lambda>Bd.
         ebind (var_at ''B_bar'' (laeb_J m) p (VB p)) (\<lambda>Bp.
         ebind (param ''s'' (laeb_s m) p) (\<lambda>sp.
         ebind (param ''L_max'' (laeb_L_max m) i) (\<lambda>Li.
           Inr (Le (Sub Bd (Add Bp (Const sp))) (Const Li)))))))"

subsection \<open>Building the model\<close>

text \<open>The sets of this model hold the event tuples as the data bundle gives them. What
  Pyomo itself does with tuple-valued members of a \<^verbatim>\<open>Set\<close> (it normalises them and admits
  one tuple length per set) is not part of the model: the build is used below only for what
  the constructor does around it, the order of validation and construction and the bundle
  it stores. Route reconstruction of \<^verbatim>\<open>DARPModelLAEB\<close> is not embedded.\<close>

definition laeb_component_names :: "string list" where
  "laeb_component_names =
     [''V'', ''A'', ''R'', ''J'', ''V_pickup'', ''V_delivery'',
      ''c'', ''t'', ''s'', ''e'', ''l'', ''L_max'', ''K'',
      ''x'', ''B_bar'', ''obj'',
      ''flow_conservation'', ''visit_pickups'', ''fleet_limit'',
      ''time_consistency'', ''time_windows'', ''max_ride_time'']"

definition laeb_declare :: "event list \<Rightarrow> (event \<times> event) list \<Rightarrow> int list \<Rightarrow> string list \<Rightarrow>
    ((event \<times> event) \<times> real) list \<Rightarrow> ((event \<times> event) \<times> real) list \<Rightarrow>
    (string \<times> real) list \<Rightarrow> (string \<times> real) list \<Rightarrow> (string \<times> real) list \<Rightarrow>
    (int \<times> real) list \<Rightarrow> real \<Rightarrow> laeb_model" where
  "laeb_declare V A Requests J c t s e l L_max K =
     (let V' = pyomo_set V; A' = pyomo_set A; R = pyomo_set Requests; J' = pyomo_set J
      in \<lparr> laeb_components = laeb_component_names,
           laeb_V = V', laeb_A = A', laeb_R = R, laeb_J = J',
           laeb_V_pickup = map (\<lambda>i. (i, [v. v \<leftarrow> V', fst v = pickup_name i])) R,
           laeb_V_delivery = map (\<lambda>i. (i, [v. v \<leftarrow> V', fst v = delivery_name i])) R,
           laeb_c = c, laeb_t = t, laeb_s = s, laeb_e = e, laeb_l = l,
           laeb_L_max = L_max, laeb_K = K,
           laeb_x = map (\<lambda>a. (a, None)) A',
           laeb_B_bar = map (\<lambda>j. (j, None)) J',
           laeb_obj = Sum [],
           laeb_flow_conservation = [], laeb_visit_pickups = [], laeb_fleet_limit = [],
           laeb_time_consistency = [], laeb_time_windows = [], laeb_max_ride_time = [] \<rparr>)"

text \<open>The constraints that a family emits: the skipped indices leave no entry.\<close>

definition emitted :: "'a option list \<Rightarrow> 'a list" where
  "emitted cs = concat (map (\<lambda>c. case c of None \<Rightarrow> [] | Some y \<Rightarrow> [y]) cs)"

definition laeb_constrain :: "databundle \<Rightarrow> laeb_model \<Rightarrow> error + laeb_model" where
  "laeb_constrain d m0 =
     ebind (emap (laeb_objective_term m0) (laeb_A m0)) (\<lambda>terms.
     ebind (emap (visit_pickups m0) (laeb_R m0)) (\<lambda>vp.
     ebind (emap (laeb_time_consistency_rule d m0) [(i, j). i \<leftarrow> laeb_J m0, j \<leftarrow> laeb_J m0]) (\<lambda>tc.
     ebind (emap (time_windows m0) (laeb_J m0)) (\<lambda>tw.
     ebind (emap (max_ride_time m0) (laeb_R m0)) (\<lambda>mr.
       Inr (m0 \<lparr> laeb_obj := Sum terms,
                 laeb_flow_conservation := emitted (map (flow_conservation m0) (laeb_V m0)),
                 laeb_visit_pickups := vp,
                 laeb_fleet_limit := [laeb_fleet_limit_rule m0],
                 laeb_time_consistency := emitted tc,
                 laeb_time_windows := tw,
                 laeb_max_ride_time := mr \<rparr>))))))"

definition laeb_build_model :: "databundle \<Rightarrow> error + laeb_model" where
  "laeb_build_model d =
     ebind (ebind (get_key d ''V'') as_events) (\<lambda>V.
     ebind (ebind (get_key d ''A'') as_evarcs) (\<lambda>A.
     ebind (ebind (get_key d ''Requests'') as_ints) (\<lambda>Requests.
     ebind (ebind (get_key d ''J'') as_strs) (\<lambda>J.
     ebind (ebind (get_key d ''costs'') as_evtab) (\<lambda>c.
     ebind (ebind (get_key d ''travel_times'') as_evtab) (\<lambda>t.
     ebind (ebind (get_key d ''service_times'') as_nodetab) (\<lambda>s.
     ebind (ebind (get_key d ''tw_start'') as_nodetab) (\<lambda>e.
     ebind (ebind (get_key d ''tw_end'') as_nodetab) (\<lambda>l.
     ebind (ebind (get_key d ''max_ride_time'') as_reqtab) (\<lambda>L_max.
     ebind (ebind (get_key d ''vehicles'') as_num) (\<lambda>K.
       laeb_constrain d (laeb_declare V A Requests J c t s e l L_max K))))))))))))"

record laeb_object =
  laeb_self_data :: databundle
  laeb_self_model :: laeb_model

definition laeb_init :: "databundle \<Rightarrow> error + laeb_object" where
  "laeb_init d =
     ebind (laeb_validate_data d) (\<lambda>_.
     ebind (laeb_build_model d) (\<lambda>m.
       Inr \<lparr> laeb_self_data = d, laeb_self_model = m \<rparr>))"

section \<open>Solver hand-off and example instances\<close>

text \<open>The solver is outside the repository. What the reconstruction sees of it is that
  every variable of the model now carries the number the assignment gives it.\<close>

definition lb_load_solution :: "(var \<Rightarrow> real) \<Rightarrow> lb_object \<Rightarrow> lb_object" where
  "lb_load_solution v self =
     self \<lparr> lb_self_model := (lb_self_model self)
       \<lparr> lb_x := map (\<lambda>((i, j), _). ((i, j), Some (v (VX i j)))) (lb_x (lb_self_model self)),
         lb_B := map (\<lambda>(j, _). (j, Some (v (VB j)))) (lb_B (lb_self_model self)),
         lb_Q := map (\<lambda>(j, _). (j, Some (v (VQ j)))) (lb_Q (lb_self_model self)) \<rparr> \<rparr>"

text \<open>An assignment given by the selected arcs and tables of start times and loads.\<close>

fun assignment :: "(string \<times> string) list \<Rightarrow> (event \<times> event) list \<Rightarrow>
    (string \<times> real) list \<Rightarrow> (string \<times> real) list \<Rightarrow> var \<Rightarrow> real" where
  "assignment sel esel Bs Qs (VX i j) = (if (i, j) \<in> set sel then 1 else 0)"
| "assignment sel esel Bs Qs (VXe u w) = (if (u, w) \<in> set esel then 1 else 0)"
| "assignment sel esel Bs Qs (VB j) = (case map_of Bs j of None \<Rightarrow> 0 | Some b \<Rightarrow> b)"
| "assignment sel esel Bs Qs (VQ j) = (case map_of Qs j of None \<Rightarrow> 0 | Some q \<Rightarrow> q)"

text \<open>The single-request instance: depot to pickup 5, pickup to delivery 8, delivery to
  depot 5, service times 0/2/2, windows [0,100], [0,50], [0,80], capacity 3, one vehicle,
  maximum ride time 30.\<close>

definition ex_travel :: "((string \<times> string) \<times> real) list" where
  "ex_travel =
     [((''0_start'', ''1+''), 5), ((''0_start'', ''1-''), 10), ((''0_start'', ''0_end''), 0),
      ((''1+'', ''1-''), 8), ((''1+'', ''0_end''), 5),
      ((''1-'', ''1+''), 8), ((''1-'', ''0_end''), 5)]"

definition ex_lb_data :: databundle where
  "ex_lb_data = map_of
     [(''Requests'', DInts [1]), (''P'', DStrs [''1+'']), (''D'', DStrs [''1-'']),
      (''costs'', DArcTab ex_travel), (''travel_times'', DArcTab ex_travel),
      (''service_times'', DNodeTab [(''0_start'', 0), (''1+'', 2), (''1-'', 2), (''0_end'', 0)]),
      (''load_change'', DNodeTab [(''0_start'', 0), (''1+'', 1), (''1-'', -1), (''0_end'', 0)]),
      (''tw_start'', DNodeTab [(''0_start'', 0), (''1+'', 0), (''1-'', 0), (''0_end'', 0)]),
      (''tw_end'', DNodeTab [(''0_start'', 100), (''1+'', 50), (''1-'', 80), (''0_end'', 100)]),
      (''max_ride_time'', DReqTab [(1, 30)]),
      (''capacity'', DNum 3), (''vehicles'', DNum 1)]"

definition ex_lb_object :: lb_object where
  "ex_lb_object = projr (lb_init ex_lb_data)"

definition ex_B :: "(string \<times> real) list" where
  "ex_B = [(''0_start'', 0), (''1+'', 5), (''1-'', 15), (''0_end'', 30)]"

definition ex_Q :: "(string \<times> real) list" where
  "ex_Q = [(''0_start'', 0), (''1+'', 1), (''1-'', 0), (''0_end'', 0)]"

text \<open>The intended route, the same with the direct depot-to-depot arc added, a selection
  that stops at the delivery node, and a selection with a cycle between the customers.\<close>

definition ex_route :: "var \<Rightarrow> real" where
  "ex_route = assignment [(''0_start'', ''1+''), (''1+'', ''1-''), (''1-'', ''0_end'')] [] ex_B ex_Q"

definition ex_extra_departure :: "var \<Rightarrow> real" where
  "ex_extra_departure =
     assignment [(''0_start'', ''1+''), (''1+'', ''1-''), (''1-'', ''0_end''), (''0_start'', ''0_end'')]
       [] ex_B ex_Q"



text \<open>The instance of laeb_example.py (its travel matrix as the dictionary Python builds
  from the literal, where a repeated key keeps the last value).\<close>

definition ev_depot :: event where "ev_depot = (''0'', [])"
definition ev_pick :: event where "ev_pick = (''1+'', [1])"
definition ev_drop :: event where "ev_drop = (''1-'', [0])"

definition ex_ev_tab :: "((event \<times> event) \<times> real) list" where
  "ex_ev_tab = [((ev_depot, ev_pick), 5), ((ev_pick, ev_drop), 8), ((ev_drop, ev_depot), 5)]"

definition ex_laeb_data :: databundle where
  "ex_laeb_data = map_of
     [(''Requests'', DInts [1]), (''P'', DStrs [''1+'']), (''D'', DStrs [''1-'']),
      (''J'', DStrs [''0'', ''1+'', ''1-'']),
      (''vehicles'', DNum 1), (''capacity'', DNum 3),
      (''V'', DEvents [ev_depot, ev_pick, ev_drop]),
      (''A'', DEvArcs [(ev_depot, ev_pick), (ev_pick, ev_drop), (ev_drop, ev_depot)]),
      (''travel_matrix'', DMatrix
         [(''0'', [(''0'', 0), (''1+'', 5), (''1-'', 10)]),
          (''1+'', [(''0'', 0), (''1-'', 8)]),
          (''1-'', [(''0'', 0), (''1+'', 8)])]),
      (''costs'', DEvTab ex_ev_tab), (''travel_times'', DEvTab ex_ev_tab),
      (''service_times'', DNodeTab [(''0'', 0), (''1+'', 2), (''1-'', 2)]),
      (''tw_start'', DNodeTab [(''0'', 0), (''1+'', 0), (''1-'', 0)]),
      (''tw_end'', DNodeTab [(''0'', 100), (''1+'', 50), (''1-'', 80)]),
      (''max_ride_time'', DReqTab [(1, 30)])]"

definition ex_laeb_object :: laeb_object where
  "ex_laeb_object = projr (laeb_init ex_laeb_data)"

section \<open>Quantities named by the specification\<close>

text \<open>The number of active start-depot departures as the specification counts them: the
  sum of \<open>x['0_start', j]\<close> over all arcs that leave the start depot. Next to it, the same
  sum over the arcs into customer nodes only, and the sum that the fleet-limit rule of the
  source writes (over the pickup nodes).\<close>

definition start_depot_departures :: "lb_model \<Rightarrow> (var \<Rightarrow> real) \<Rightarrow> real" where
  "start_depot_departures m v =
     (\<Sum>j\<leftarrow>[j \<leftarrow> lb_J m. (''0_start'', j) \<in> set (lb_A m)]. v (VX ''0_start'' j))"

definition customer_departures :: "lb_model \<Rightarrow> (var \<Rightarrow> real) \<Rightarrow> real" where
  "customer_departures m v =
     (\<Sum>j\<leftarrow>[j \<leftarrow> lb_J m. (''0_start'', j) \<in> set (lb_A m) \<and> j \<noteq> ''0_end'']. v (VX ''0_start'' j))"

definition pickup_departures :: "lb_model \<Rightarrow> (var \<Rightarrow> real) \<Rightarrow> real" where
  "pickup_departures m v =
     (\<Sum>j\<leftarrow>[j \<leftarrow> lb_P m. (''0_start'', j) \<in> set (lb_A m)]. v (VX ''0_start'' j))"

text \<open>The legs of the arcs that an assignment selects (value above one half), in the order
  of the arc list, with the start times and load the assignment gives.\<close>

definition selected_legs :: "(var \<Rightarrow> real) \<Rightarrow> (string \<times> string) list \<Rightarrow> leg list" where
  "selected_legs v arcs =
     map (\<lambda>(i, j). \<lparr> leg_from = i, leg_to = j, depart_time = v (VB i),
                      arrive_time = v (VB j), load_after = v (VQ j) \<rparr>)
       (filter (\<lambda>(i, j). v (VX i j) > 1 / 2) arcs)"

section \<open>Properties\<close>

subsection \<open>Helper facts\<close>

lemma ebind_Inl [simp]: "ebind (Inl err) f = Inl err"
  by (simp add: ebind_def)

lemma ebind_Inr [simp]: "ebind (Inr v) f = f v"
  by (simp add: ebind_def)

lemma ebind_Inr_iff: "ebind r f = Inr y \<longleftrightarrow> (\<exists>v. r = Inr v \<and> f v = Inr y)"
  by (cases r) (auto simp: ebind_def)

lemma set_pyomo_set [simp]: "set (pyomo_set ys) = set ys"
  by (induction ys rule: pyomo_set.induct) auto

lemma distinct_pyomo_set [simp]: "distinct (pyomo_set ys)"
  by (induction ys rule: pyomo_set.induct) auto

lemma pyomo_set_distinct: "distinct ys \<Longrightarrow> pyomo_set ys = ys"
proof (induction ys)
  case Nil
  then show ?case by simp
next
  case (Cons a ys)
  then have "filter (\<lambda>z. z \<noteq> a) ys = ys"
    by (auto simp: filter_id_conv)
  with Cons show ?case by simp
qed

lemmas str_eval = pickup_name_def delivery_name_def str_int_def str_nat.simps digit_char_def

lemma request_1_names: "pickup_name 1 = ''1+''" "delivery_name 1 = ''1-''"
  by (simp_all add: str_eval)

lemmas lb_build_eval = lb_build_model_def get_key_def as_ints_def as_strs_def as_num_def
  as_arctab_def as_nodetab_def as_reqtab_def lb_constrain_def lb_declare_def build_J_def
  build_A_def build_J_minus_depot_def set_union_def generate_s_sets_def s_sets_def
  s_sets_of_size_def tuple_of_set_def has_delivery_without_pickup_def objective_term_def
  param_def precedence_pairing_def time_consistency_def load_consistency_def
  service_windows_def capacity_bound_def max_ride_duration_def var_at_def Let_def
  visit_once_def leave_once_def fleet_limit_def arcs_in_S_def lb_component_names_def
  lb_init_def lb_validate_data_def lb_required_keys_def ex_lb_data_def request_1_names
  ex_travel_def

lemmas laeb_build_eval = laeb_build_model_def get_key_def as_ints_def as_strs_def as_num_def
  as_events_def as_evarcs_def as_evtab_def as_nodetab_def as_reqtab_def as_matrix_def
  laeb_constrain_def laeb_declare_def laeb_objective_term_def flow_conservation_def
  visit_pickups_def laeb_fleet_limit_rule_def travel_matrix_at_def relevant_arcs_def
  laeb_time_consistency_rule_def time_windows_def max_ride_time_def var_at_def param_def
  emitted_def Let_def laeb_component_names_def laeb_init_def laeb_validate_data_def
  laeb_required_keys_def ex_laeb_data_def request_1_names ex_ev_tab_def ev_depot_def
  ev_pick_def ev_drop_def depot_event_def

lemma ex_lb_init: "lb_init ex_lb_data = Inr ex_lb_object"
proof -
  have "\<exists>obj. lb_init ex_lb_data = Inr obj"
    by (simp add: lb_build_eval)
  then show ?thesis by (auto simp: ex_lb_object_def)
qed

lemma ex_laeb_init: "laeb_init ex_laeb_data = Inr ex_laeb_object"
proof -
  have "\<exists>obj. laeb_init ex_laeb_data = Inr obj"
    by (simp add: laeb_build_eval)
  then show ?thesis by (auto simp: ex_laeb_object_def)
qed

subsection \<open>Validation\<close>

lemma validate_keys_first_missing:
  "(\<forall>k'\<in>set pre. d k' \<noteq> None) \<Longrightarrow> d k = None \<Longrightarrow>
   validate_keys msg (pre @ k # post) d = Inl (ValueError (msg @ k))"
  by (induction pre) auto

lemma validate_keys_complete:
  "(\<forall>k\<in>set keys. d k \<noteq> None) \<Longrightarrow> validate_keys msg keys d = Inr ()"
  by (induction keys) auto

text \<open>
  C6. For each formulation: when some required key is absent, validation raises the
  configuration error that names the first absent key in the order of the required-key
  list, and the constructor raises that same error, so no set or constraint is built (a
  build on such a bundle would raise a different error). When no required key is absent,
  validation raises nothing, and the constructor goes on to build from the very bundle it
  was given and stores that bundle unchanged.
\<close>

theorem validate_data_first_missing_key:
  "(lb_required_keys = pre @ k # post \<and> (\<forall>k'\<in>set pre. d k' \<noteq> None) \<and> d k = None \<longrightarrow>
      lb_validate_data d = Inl (ValueError (''Missing required data key: '' @ k)) \<and>
      lb_init d = Inl (ValueError (''Missing required data key: '' @ k))) \<and>
   (laeb_required_keys = pre @ k # post \<and> (\<forall>k'\<in>set pre. d k' \<noteq> None) \<and> d k = None \<longrightarrow>
      laeb_validate_data d = Inl (ValueError (''Falta la clave de datos requerida: '' @ k)) \<and>
      laeb_init d = Inl (ValueError (''Falta la clave de datos requerida: '' @ k))) \<and>
   ((\<forall>k\<in>set lb_required_keys. d k \<noteq> None) \<longrightarrow>
      lb_validate_data d = Inr () \<and>
      lb_init d = ebind (lb_build_model d) (\<lambda>m. Inr \<lparr> lb_self_data = d, lb_self_model = m \<rparr>)) \<and>
   ((\<forall>k\<in>set laeb_required_keys. d k \<noteq> None) \<longrightarrow>
      laeb_validate_data d = Inr () \<and>
      laeb_init d = ebind (laeb_build_model d) (\<lambda>m. Inr \<lparr> laeb_self_data = d, laeb_self_model = m \<rparr>)) \<and>
   (lb_init d = Inr lb_self \<longrightarrow> lb_self_data lb_self = d) \<and>
   (laeb_init d = Inr laeb_self \<longrightarrow> laeb_self_data laeb_self = d)"
proof -
  have a: "lb_validate_data d = Inl (ValueError (''Missing required data key: '' @ k))"
    if "lb_required_keys = pre @ k # post" "\<forall>k'\<in>set pre. d k' \<noteq> None" "d k = None"
    unfolding lb_validate_data_def that(1) by (rule validate_keys_first_missing [OF that(2) that(3)])
  have b: "laeb_validate_data d = Inl (ValueError (''Falta la clave de datos requerida: '' @ k))"
    if "laeb_required_keys = pre @ k # post" "\<forall>k'\<in>set pre. d k' \<noteq> None" "d k = None"
    unfolding laeb_validate_data_def that(1) by (rule validate_keys_first_missing [OF that(2) that(3)])
  have c: "lb_validate_data d = Inr ()" if "\<forall>k\<in>set lb_required_keys. d k \<noteq> None"
    using that validate_keys_complete [of lb_required_keys d] by (simp add: lb_validate_data_def)
  have e: "laeb_validate_data d = Inr ()" if "\<forall>k\<in>set laeb_required_keys. d k \<noteq> None"
    using that validate_keys_complete [of laeb_required_keys d] by (simp add: laeb_validate_data_def)
  have f: "lb_init d = Inr lb_self \<longrightarrow> lb_self_data lb_self = d"
    by (auto simp: lb_init_def ebind_Inr_iff)
  have g: "laeb_init d = Inr laeb_self \<longrightarrow> laeb_self_data laeb_self = d"
    by (auto simp: laeb_init_def ebind_Inr_iff)
  show ?thesis
    using a b c e f g by (simp add: lb_init_def laeb_init_def)
qed

theorem validate_data_first_missing_key_witness:
  "lb_init (ex_lb_data(''costs'' := None)) = Inl (ValueError ''Missing required data key: costs'') \<and>
   laeb_init (ex_laeb_data(''V'' := None)) = Inl (ValueError ''Falta la clave de datos requerida: V'') \<and>
   lb_validate_data ex_lb_data = Inr () \<and>
   laeb_validate_data ex_laeb_data = Inr () \<and>
   lb_self_data ex_lb_object = ex_lb_data \<and>
   laeb_self_data ex_laeb_object = ex_laeb_data"
proof -
  have 1: "lb_init (ex_lb_data(''costs'' := None)) = Inl (ValueError ''Missing required data key: costs'')"
    using validate_data_first_missing_key
      [of "[''Requests'', ''P'', ''D'']" "''costs''" _ "ex_lb_data(''costs'' := None)"]
    by (simp add: lb_required_keys_def ex_lb_data_def)
  have 2: "laeb_init (ex_laeb_data(''V'' := None)) = Inl (ValueError ''Falta la clave de datos requerida: V'')"
    using validate_data_first_missing_key [of "[]" "''V''" _ "ex_laeb_data(''V'' := None)"]
    by (simp add: laeb_required_keys_def)
  have 3: "lb_validate_data ex_lb_data = Inr ()"
    using validate_data_first_missing_key [of _ _ _ ex_lb_data]
    by (simp add: lb_required_keys_def ex_lb_data_def)
  have 4: "laeb_validate_data ex_laeb_data = Inr ()"
    using validate_data_first_missing_key [of _ _ _ ex_laeb_data]
    by (simp add: laeb_required_keys_def ex_laeb_data_def)
  have 5: "lb_self_data ex_lb_object = ex_lb_data"
    using validate_data_first_missing_key [of _ _ _ ex_lb_data ex_lb_object] ex_lb_init by simp
  have 6: "laeb_self_data ex_laeb_object = ex_laeb_data"
    using validate_data_first_missing_key [of _ _ _ ex_laeb_data _ ex_laeb_object] ex_laeb_init by simp
  show ?thesis using 1 2 3 4 5 6 by simp
qed

subsection \<open>What a successful build fixes\<close>

lemma get_as_strs: "ebind (get_key d k) as_strs = Inr ys \<longleftrightarrow> d k = Some (DStrs ys)"
  by (auto simp: get_key_def as_strs_def split: option.splits dval.splits)

lemma get_as_ints: "ebind (get_key d k) as_ints = Inr ys \<longleftrightarrow> d k = Some (DInts ys)"
  by (auto simp: get_key_def as_ints_def split: option.splits dval.splits)

lemma get_as_num: "ebind (get_key d k) as_num = Inr r \<longleftrightarrow> d k = Some (DNum r)"
  by (auto simp: get_key_def as_num_def split: option.splits dval.splits)

lemma get_as_arctab: "ebind (get_key d k) as_arctab = Inr ys \<longleftrightarrow> d k = Some (DArcTab ys)"
  by (auto simp: get_key_def as_arctab_def split: option.splits dval.splits)

lemma get_as_nodetab: "ebind (get_key d k) as_nodetab = Inr ys \<longleftrightarrow> d k = Some (DNodeTab ys)"
  by (auto simp: get_key_def as_nodetab_def split: option.splits dval.splits)

lemma get_as_reqtab: "ebind (get_key d k) as_reqtab = Inr ys \<longleftrightarrow> d k = Some (DReqTab ys)"
  by (auto simp: get_key_def as_reqtab_def split: option.splits dval.splits)

lemma get_as_events: "ebind (get_key d k) as_events = Inr ys \<longleftrightarrow> d k = Some (DEvents ys)"
  by (auto simp: get_key_def as_events_def split: option.splits dval.splits)

lemma get_as_evarcs: "ebind (get_key d k) as_evarcs = Inr ys \<longleftrightarrow> d k = Some (DEvArcs ys)"
  by (auto simp: get_key_def as_evarcs_def split: option.splits dval.splits)

lemma get_as_evtab: "ebind (get_key d k) as_evtab = Inr ys \<longleftrightarrow> d k = Some (DEvTab ys)"
  by (auto simp: get_key_def as_evtab_def split: option.splits dval.splits)

lemmas get_as = get_as_strs get_as_ints get_as_num get_as_arctab get_as_nodetab get_as_reqtab
  get_as_events get_as_evarcs get_as_evtab

lemma lb_build_declared:
  assumes "lb_build_model d = Inr m"
  shows "\<exists>Requests P D c t s q e l L Q_max K.
     d ''Requests'' = Some (DInts Requests) \<and> d ''P'' = Some (DStrs P) \<and> d ''D'' = Some (DStrs D) \<and>
     d ''costs'' = Some (DArcTab c) \<and> d ''travel_times'' = Some (DArcTab t) \<and>
     d ''service_times'' = Some (DNodeTab s) \<and> d ''load_change'' = Some (DNodeTab q) \<and>
     d ''tw_start'' = Some (DNodeTab e) \<and> d ''tw_end'' = Some (DNodeTab l) \<and>
     d ''max_ride_time'' = Some (DReqTab L) \<and> d ''capacity'' = Some (DNum Q_max) \<and>
     d ''vehicles'' = Some (DNum K) \<and>
     lb_constrain d (lb_declare Requests P D c t s q e l L Q_max K) = Inr m"
  using assms unfolding lb_build_model_def ebind_Inr_iff get_as [symmetric] by blast

lemma lb_constrain_frame:
  assumes "lb_constrain d m0 = Inr m"
  shows "lb_components m = lb_components m0" "lb_Requests m = lb_Requests m0"
    "lb_P m = lb_P m0" "lb_D m = lb_D m0" "lb_J_minus_depot m = lb_J_minus_depot m0"
    "lb_J m = lb_J m0" "lb_A m = lb_A m0" "lb_c m = lb_c m0" "lb_t m = lb_t m0"
    "lb_s m = lb_s m0" "lb_q m = lb_q m0" "lb_e m = lb_e m0" "lb_l m = lb_l m0"
    "lb_L m = lb_L m0" "lb_Q_max m = lb_Q_max m0" "lb_K m = lb_K m0"
    "lb_x m = lb_x m0" "lb_B m = lb_B m0" "lb_Q m = lb_Q m0"
  using assms by (auto simp: lb_constrain_def ebind_Inr_iff Let_def)

lemma set_build_J: "set (build_J P D) = {''0_start''} \<union> set P \<union> set D \<union> {''0_end''}"
  by (auto simp: build_J_def build_J_minus_depot_def set_union_def)

lemma set_build_A:
  "set (build_A J) = {(i, j). i \<in> set J \<and> j \<in> set J \<and> i \<noteq> j \<and> i \<noteq> ''0_end'' \<and> j \<noteq> ''0_start''}"
  by (auto simp: build_A_def)

text \<open>
  C7. The node universe built for the LB model is the start depot, the pickups, the
  deliveries and the end depot, and the arc set holds exactly the ordered pairs of
  distinct nodes whose tail is not the end depot and whose head is not the start depot;
  so no arc enters the start depot and none leaves the end depot. These are the sets of
  every model the builder returns.
\<close>

theorem lb_node_and_arc_sets:
  "set (build_J P D) = {''0_start''} \<union> set P \<union> set D \<union> {''0_end''} \<and>
   set (build_A (build_J P D)) =
     {(i, j). i \<in> set (build_J P D) \<and> j \<in> set (build_J P D) \<and>
              i \<noteq> j \<and> i \<noteq> ''0_end'' \<and> j \<noteq> ''0_start''} \<and>
   (i, ''0_start'') \<notin> set (build_A (build_J P D)) \<and>
   (''0_end'', j) \<notin> set (build_A (build_J P D)) \<and>
   (lb_build_model d = Inr m \<and> d ''P'' = Some (DStrs P) \<and> d ''D'' = Some (DStrs D) \<longrightarrow>
      lb_J m = build_J P D \<and> lb_A m = build_A (build_J P D))"
proof -
  have "lb_J m = build_J P D \<and> lb_A m = build_A (build_J P D)"
    if h: "lb_build_model d = Inr m" "d ''P'' = Some (DStrs P)" "d ''D'' = Some (DStrs D)"
  proof -
    from lb_build_declared [OF h(1)] obtain Requests P' D' c t s q e l L Q_max K where
      "d ''P'' = Some (DStrs P')" "d ''D'' = Some (DStrs D')"
      and m: "lb_constrain d (lb_declare Requests P' D' c t s q e l L Q_max K) = Inr m"
      by blast
    with h have "P' = P" "D' = D" by simp_all
    with lb_constrain_frame(6,7) [OF m] show ?thesis
      by (simp add: lb_declare_def Let_def)
  qed
  then show ?thesis
    by (simp add: set_build_J set_build_A)
qed

lemma ex_lb_build: "lb_build_model ex_lb_data = Inr (lb_self_model ex_lb_object)"
proof -
  from ex_lb_init obtain v where v: "lb_build_model ex_lb_data = Inr v"
    and eq: "ex_lb_object = \<lparr> lb_self_data = ex_lb_data, lb_self_model = v \<rparr>"
    by (auto simp: lb_init_def ebind_Inr_iff)
  from eq have "lb_self_model ex_lb_object = lb_self_model \<lparr> lb_self_data = ex_lb_data, lb_self_model = v \<rparr>"
    by (rule arg_cong)
  with v show ?thesis by simp
qed

theorem lb_node_and_arc_sets_witness:
  "lb_J (lb_self_model ex_lb_object) = [''0_start'', ''1+'', ''1-'', ''0_end''] \<and>
   lb_A (lb_self_model ex_lb_object) =
     [(''0_start'', ''1+''), (''0_start'', ''1-''), (''0_start'', ''0_end''),
      (''1+'', ''1-''), (''1+'', ''0_end''), (''1-'', ''1+''), (''1-'', ''0_end'')]"
  using lb_node_and_arc_sets [of "[''1+'']" "[''1-'']" _ _ ex_lb_data "lb_self_model ex_lb_object"]
    ex_lb_build
  by (simp add: ex_lb_data_def build_J_def build_A_def build_J_minus_depot_def set_union_def)

text \<open>
  C4. Big-M vacuity. For an arc \<open>(i, j)\<close> with \<open>x[i,j] = 0\<close>, the time-consistency
  constraint (with \<open>M_ij = l[i] + s[i] + t[i,j] - e[j]\<close>) holds for every \<open>B\<close> that
  satisfies the time-window bounds of \<open>i\<close> and \<open>j\<close>, and the load-consistency constraint
  (with coefficient \<open>Q_max\<close>) holds for every \<open>Q\<close> that satisfies the capacity bounds of
  \<open>i\<close> and \<open>j\<close>.
\<close>

theorem big_M_vacuous_when_arc_unselected:
  "(time_consistency m (i, j) = Inr tc \<and> service_windows m i = Inr wi \<and>
    service_windows m j = Inr wj \<and> holds v wi \<and> holds v wj \<and> v (VX i j) = 0
      \<longrightarrow> holds v tc) \<and>
   (load_consistency m (i, j) = Inr lc \<and> capacity_bound m i = Inr ci \<and>
    capacity_bound m j = Inr cj \<and> holds v ci \<and> holds v cj \<and> v (VX i j) = 0
      \<longrightarrow> holds v lc)"
  by (auto simp: time_consistency_def load_consistency_def service_windows_def
      capacity_bound_def ebind_Inr_iff Let_def)

lemma ex_lb_model_fields:
  "lb_components (lb_self_model ex_lb_object) = lb_component_names"
  "lb_P (lb_self_model ex_lb_object) = [''1+'']"
  "lb_J (lb_self_model ex_lb_object) = [''0_start'', ''1+'', ''1-'', ''0_end'']"
  "lb_A (lb_self_model ex_lb_object) =
     [(''0_start'', ''1+''), (''0_start'', ''1-''), (''0_start'', ''0_end''),
      (''1+'', ''1-''), (''1+'', ''0_end''), (''1-'', ''1+''), (''1-'', ''0_end'')]"
  "lb_t (lb_self_model ex_lb_object) = ex_travel"
  "lb_s (lb_self_model ex_lb_object) = [(''0_start'', 0), (''1+'', 2), (''1-'', 2), (''0_end'', 0)]"
  "lb_q (lb_self_model ex_lb_object) = [(''0_start'', 0), (''1+'', 1), (''1-'', -1), (''0_end'', 0)]"
  "lb_e (lb_self_model ex_lb_object) = [(''0_start'', 0), (''1+'', 0), (''1-'', 0), (''0_end'', 0)]"
  "lb_l (lb_self_model ex_lb_object) = [(''0_start'', 100), (''1+'', 50), (''1-'', 80), (''0_end'', 100)]"
  "lb_Q_max (lb_self_model ex_lb_object) = 3"
  "lb_K (lb_self_model ex_lb_object) = 1"
  "lb_x (lb_self_model ex_lb_object) = map (\<lambda>a. (a, None)) (lb_A (lb_self_model ex_lb_object))"
  "lb_B (lb_self_model ex_lb_object) = map (\<lambda>j. (j, None)) (lb_J (lb_self_model ex_lb_object))"
  "lb_Q (lb_self_model ex_lb_object) = map (\<lambda>j. (j, None)) (lb_J (lb_self_model ex_lb_object))"
proof -
  from lb_build_declared [OF ex_lb_build] obtain Requests P D c t s q e l L Q_max K where
    k: "ex_lb_data ''Requests'' = Some (DInts Requests)" "ex_lb_data ''P'' = Some (DStrs P)"
      "ex_lb_data ''D'' = Some (DStrs D)"
      "ex_lb_data ''costs'' = Some (DArcTab c)" "ex_lb_data ''travel_times'' = Some (DArcTab t)"
      "ex_lb_data ''service_times'' = Some (DNodeTab s)" "ex_lb_data ''load_change'' = Some (DNodeTab q)"
      "ex_lb_data ''tw_start'' = Some (DNodeTab e)" "ex_lb_data ''tw_end'' = Some (DNodeTab l)"
      "ex_lb_data ''max_ride_time'' = Some (DReqTab L)" "ex_lb_data ''capacity'' = Some (DNum Q_max)"
      "ex_lb_data ''vehicles'' = Some (DNum K)"
    and m: "lb_constrain ex_lb_data (lb_declare Requests P D c t s q e l L Q_max K)
              = Inr (lb_self_model ex_lb_object)"
    by blast
  from k have v: "P = [''1+'']" "D = [''1-'']" "t = ex_travel"
    "s = [(''0_start'', 0), (''1+'', 2), (''1-'', 2), (''0_end'', 0)]"
    "q = [(''0_start'', 0), (''1+'', 1), (''1-'', -1), (''0_end'', 0)]"
    "e = [(''0_start'', 0), (''1+'', 0), (''1-'', 0), (''0_end'', 0)]"
    "l = [(''0_start'', 100), (''1+'', 50), (''1-'', 80), (''0_end'', 100)]"
    "Q_max = 3" "K = 1"
    by (simp_all add: ex_lb_data_def)
  note f = lb_constrain_frame [OF m]
  show "lb_components (lb_self_model ex_lb_object) = lb_component_names"
    "lb_P (lb_self_model ex_lb_object) = [''1+'']"
    "lb_J (lb_self_model ex_lb_object) = [''0_start'', ''1+'', ''1-'', ''0_end'']"
    "lb_t (lb_self_model ex_lb_object) = ex_travel"
    "lb_s (lb_self_model ex_lb_object) = [(''0_start'', 0), (''1+'', 2), (''1-'', 2), (''0_end'', 0)]"
    "lb_q (lb_self_model ex_lb_object) = [(''0_start'', 0), (''1+'', 1), (''1-'', -1), (''0_end'', 0)]"
    "lb_e (lb_self_model ex_lb_object) = [(''0_start'', 0), (''1+'', 0), (''1-'', 0), (''0_end'', 0)]"
    "lb_l (lb_self_model ex_lb_object) = [(''0_start'', 100), (''1+'', 50), (''1-'', 80), (''0_end'', 100)]"
    "lb_Q_max (lb_self_model ex_lb_object) = 3"
    "lb_K (lb_self_model ex_lb_object) = 1"
    "lb_A (lb_self_model ex_lb_object) =
     [(''0_start'', ''1+''), (''0_start'', ''1-''), (''0_start'', ''0_end''),
      (''1+'', ''1-''), (''1+'', ''0_end''), (''1-'', ''1+''), (''1-'', ''0_end'')]"
    "lb_x (lb_self_model ex_lb_object) = map (\<lambda>a. (a, None)) (lb_A (lb_self_model ex_lb_object))"
    "lb_B (lb_self_model ex_lb_object) = map (\<lambda>j. (j, None)) (lb_J (lb_self_model ex_lb_object))"
    "lb_Q (lb_self_model ex_lb_object) = map (\<lambda>j. (j, None)) (lb_J (lb_self_model ex_lb_object))"
    unfolding f v
    by (simp_all add: lb_declare_def Let_def build_J_def build_A_def build_J_minus_depot_def set_union_def)
qed

theorem big_M_vacuous_when_arc_unselected_witness:
  "ex_route (VX ''1+'' ''0_end'') = 0 \<and>
   holds ex_route (Range 0 (Var (VB ''1+'')) 50) \<and>
   holds ex_route (Range 0 (Var (VB ''0_end'')) 100) \<and>
   holds ex_route
     (Le (Sub (Add (Add (Var (VB ''1+'')) (Const 2)) (Const 5))
              (Mul (Const 57) (Sub (Const 1) (Var (VX ''1+'' ''0_end'')))))
         (Var (VB ''0_end''))) \<and>
   holds ex_route (Range 1 (Var (VQ ''1+'')) 3) \<and>
   holds ex_route (Range 0 (Var (VQ ''0_end'')) 3) \<and>
   holds ex_route
     (Le (Sub (Add (Var (VQ ''1+'')) (Const 0))
              (Mul (Const 3) (Sub (Const 1) (Var (VX ''1+'' ''0_end'')))))
         (Var (VQ ''0_end'')))"
  using big_M_vacuous_when_arc_unselected
    [of "lb_self_model ex_lb_object" "''1+''" "''0_end''"
        "Le (Sub (Add (Add (Var (VB ''1+'')) (Const 2)) (Const 5))
              (Mul (Const 57) (Sub (Const 1) (Var (VX ''1+'' ''0_end'')))))
         (Var (VB ''0_end''))"
        "Range 0 (Var (VB ''1+'')) 50" "Range 0 (Var (VB ''0_end'')) 100" ex_route
        "Le (Sub (Add (Var (VQ ''1+'')) (Const 0))
              (Mul (Const 3) (Sub (Const 1) (Var (VX ''1+'' ''0_end'')))))
         (Var (VQ ''0_end''))"
        "Range 1 (Var (VQ ''1+'')) 3" "Range 0 (Var (VQ ''0_end'')) 3"]
  by (simp add: time_consistency_def load_consistency_def service_windows_def capacity_bound_def
      param_def ex_lb_model_fields ex_travel_def ex_route_def ex_B_def ex_Q_def)

lemma emap_list_all2: "emap f ys = Inr zs \<Longrightarrow> list_all2 (\<lambda>y z. f y = Inr z) ys zs"
  by (induction ys arbitrary: zs) (auto simp: ebind_Inr_iff)

subsection \<open>Subset enumeration\<close>

lemma combinations_filter_subseqs:
  "combinations ys r = filter (\<lambda>zs. length zs = r) (subseqs ys)"
proof (induction ys arbitrary: r)
  case Nil
  then show ?case by (cases r) auto
next
  case (Cons y ys)
  show ?case
  proof (cases r)
    case 0
    have "combinations ys 0 = [[]]" by simp
    with Cons [of 0] 0 show ?thesis
      by (simp add: Let_def filter_map comp_def)
  next
    case (Suc r')
    with Cons [of r'] Cons [of "Suc r'"] show ?thesis
      by (simp add: Let_def filter_map comp_def)
  qed
qed

lemma length_subseqs_le: "zs \<in> set (subseqs ys) \<Longrightarrow> length zs \<le> length ys"
  by (induction ys arbitrary: zs) (fastforce simp: Let_def)+

lemma set_all_combinations:
  "set (concat (map (combinations ys) [1 ..< length ys + 1])) =
     {zs. zs \<in> set (subseqs ys) \<and> zs \<noteq> []}"
proof -
  have "1 \<le> length zs \<and> length zs < length ys + 1"
    if "zs \<in> set (subseqs ys)" "zs \<noteq> []" for zs
  proof -
    from that(2) have "length zs \<noteq> 0" by simp
    with length_subseqs_le [OF that(1)] show ?thesis by linarith
  qed
  then show ?thesis
    by (auto simp: combinations_filter_subseqs simp del: upt_Suc)
qed

lemma image_set_all_combinations:
  "set ` set (concat (map (combinations ys) [1 ..< length ys + 1])) =
     {T. T \<subseteq> set ys \<and> T \<noteq> {}}"
proof -
  have "set ` {zs. zs \<in> set (subseqs ys) \<and> zs \<noteq> []} = {T. T \<subseteq> set ys \<and> T \<noteq> {}}"
    (is "?L = ?R")
  proof
    show "?L \<subseteq> ?R"
      using subseqs_powset [of ys] by auto
    show "?R \<subseteq> ?L"
    proof
      fix T assume "T \<in> ?R"
      then have "T \<in> set ` set (subseqs ys)" "T \<noteq> {}"
        by (simp_all add: subseqs_powset)
      then obtain zs where "zs \<in> set (subseqs ys)" "set zs = T" "zs \<noteq> []"
        by auto
      then show "T \<in> ?L" by blast
    qed
  qed
  then show ?thesis
    by (simp only: set_all_combinations)
qed

lemma delivery_name_not_start: "delivery_name i \<noteq> ''0_start''"
proof
  assume "delivery_name i = ''0_start''"
  then have "last (delivery_name i) = last ''0_start''" by simp
  then show False by (simp add: delivery_name_def)
qed

lemma has_delivery_without_pickup_iff:
  "has_delivery_without_pickup Requests S \<longleftrightarrow>
     (\<exists>i\<in>set Requests. delivery_name i \<in> set S \<and> pickup_name i \<notin> set S)"
  by (simp add: has_delivery_without_pickup_def list_ex_iff)

lemma s_sets_filter:
  "s_sets Requests P D =
     filter (has_delivery_without_pickup Requests)
       (map (\<lambda>subset. tuple_of_set (subset @ [''0_start'']))
         (concat (map (combinations (P @ D)) [1 ..< length (P @ D) + 1])))"
  by (simp add: s_sets_def s_sets_of_size_def [abs_def] Let_def map_concat filter_concat comp_def
      del: upt_Suc)

lemma set_tuple_of_set [simp]: "set (tuple_of_set ys) = set ys"
  by (simp add: tuple_of_set_def)

lemma set_s_sets:
  "set ` set (s_sets Requests P D) =
     {insert ''0_start'' T | T. T \<subseteq> set P \<union> set D \<and>
        (\<exists>i\<in>set Requests. delivery_name i \<in> insert ''0_start'' T \<and>
                            pickup_name i \<notin> insert ''0_start'' T)}"
  (is "?L = ?R")
proof -
  define cs where "cs = concat (map (combinations (P @ D)) [1 ..< length (P @ D) + 1])"
  have ss: "s_sets Requests P D =
      filter (has_delivery_without_pickup Requests)
        (map (\<lambda>subset. tuple_of_set (subset @ [''0_start''])) cs)"
    unfolding cs_def by (rule s_sets_filter)
  have im: "set ` set cs = {T. T \<subseteq> set (P @ D) \<and> T \<noteq> {}}"
    unfolding cs_def by (rule image_set_all_combinations)
  show ?thesis
  proof
    show "?L \<subseteq> ?R"
    proof
      fix S assume "S \<in> ?L"
      then obtain zs where zs: "zs \<in> set cs"
        and h: "has_delivery_without_pickup Requests (tuple_of_set (zs @ [''0_start'']))"
        and S: "S = set (tuple_of_set (zs @ [''0_start'']))"
        unfolding ss by auto
      from zs have "set zs \<in> set ` set cs" by blast
      then have "set zs \<subseteq> set P \<union> set D" unfolding im by simp
      with h S show "S \<in> ?R"
        by (auto simp: has_delivery_without_pickup_iff intro!: exI [of _ "set zs"])
    qed
    show "?R \<subseteq> ?L"
    proof
      fix S assume "S \<in> ?R"
      then obtain T i where T: "T \<subseteq> set P \<union> set D" and S: "S = insert ''0_start'' T"
        and i: "i \<in> set Requests" "delivery_name i \<in> insert ''0_start'' T"
          "pickup_name i \<notin> insert ''0_start'' T"
        by auto
      from i(2) have "T \<noteq> {}" using delivery_name_not_start by auto
      with T have "T \<in> set ` set cs" unfolding im by simp
      then obtain zs where zs: "zs \<in> set cs" and "set zs = T"
        by auto
      with i S have "has_delivery_without_pickup Requests (tuple_of_set (zs @ [''0_start'']))"
        "S = set (tuple_of_set (zs @ [''0_start'']))"
        by (auto simp: has_delivery_without_pickup_iff)
      with zs show "S \<in> ?L"
        unfolding ss by (auto simp: image_iff)
    qed
  qed
qed

lemma distinct_concat_map:
  assumes "distinct rs" "\<And>r. r \<in> set rs \<Longrightarrow> distinct (g r)"
    "\<And>r r'. r \<in> set rs \<Longrightarrow> r' \<in> set rs \<Longrightarrow> r \<noteq> r' \<Longrightarrow> set (g r) \<inter> set (g r') = {}"
  shows "distinct (concat (map g rs))"
  using assms by (induction rs) fastforce+

lemma distinct_subseqs: "distinct ys \<Longrightarrow> distinct (subseqs ys)"
  using distinct_set_subseqs [of ys] by (simp add: distinct_map)

lemma inj_on_set_subseqs: "distinct ys \<Longrightarrow> inj_on set (set (subseqs ys))"
  using distinct_set_subseqs [of ys] by (simp add: distinct_map)

lemma distinct_all_combinations:
  assumes "distinct ys"
  shows "distinct (concat (map (combinations ys) [1 ..< length ys + 1]))"
proof (rule distinct_concat_map)
  show "distinct [1 ..< length ys + 1]" by simp
  show "distinct (combinations ys r)" for r
    using distinct_subseqs [OF assms] by (simp add: combinations_filter_subseqs)
  show "set (combinations ys r) \<inter> set (combinations ys r') = {}" if "r \<noteq> r'" for r r'
    using that by (auto simp: combinations_filter_subseqs)
qed

lemma distinct_map_set_s_sets:
  assumes "distinct (P @ D)" "''0_start'' \<notin> set (P @ D)"
  shows "distinct (map set (s_sets Requests P D))"
proof -
  define cs where "cs = concat (map (combinations (P @ D)) [1 ..< length (P @ D) + 1])"
  have ss: "s_sets Requests P D =
      filter (has_delivery_without_pickup Requests)
        (map (\<lambda>subset. tuple_of_set (subset @ [''0_start''])) cs)"
    unfolding cs_def by (rule s_sets_filter)
  have dc: "distinct cs"
    unfolding cs_def by (rule distinct_all_combinations [OF assms(1)])
  have sub: "set cs \<subseteq> set (subseqs (P @ D))"
    unfolding cs_def set_all_combinations by blast
  have "inj_on (\<lambda>zs. insert ''0_start'' (set zs)) (set cs)"
  proof (rule inj_onI)
    fix zs zs' assume h: "zs \<in> set cs" "zs' \<in> set cs"
      "insert ''0_start'' (set zs) = insert ''0_start'' (set zs')"
    from h(1,2) sub have in_sub: "zs \<in> set (subseqs (P @ D))" "zs' \<in> set (subseqs (P @ D))"
      by blast+
    then have "set zs \<in> Pow (set (P @ D))" "set zs' \<in> Pow (set (P @ D))"
      unfolding subseqs_powset [symmetric] by blast+
    with assms(2) have "''0_start'' \<notin> set zs" "''0_start'' \<notin> set zs'"
      by blast+
    with h(3) have "set zs = set zs'"
      by (metis insert_ident)
    with inj_on_set_subseqs [OF assms(1)] in_sub show "zs = zs'"
      by (auto dest: inj_onD)
  qed
  with dc have "distinct (map (\<lambda>zs. insert ''0_start'' (set zs)) cs)"
    by (simp add: distinct_map)
  then have "distinct (map set (map (\<lambda>subset. tuple_of_set (subset @ [''0_start''])) cs))"
    by (simp add: comp_def)
  then show ?thesis
    unfolding ss by (rule distinct_map_filter)
qed

lemma distinct_s_sets_member: "S \<in> set (s_sets Requests P D) \<Longrightarrow> distinct S"
  by (auto simp: s_sets_filter tuple_of_set_def simp del: upt_Suc)

lemma inner_comprehension_filter:
  "concat (map (\<lambda>j. if Q (i, j) then [(i, j)] else []) ys) = filter Q (map (Pair i) ys)"
  by (induction ys) auto

lemma arcs_in_S_product:
  "arcs_in_S m S = filter (\<lambda>a. a \<in> set (lb_A m)) (List.product S S)"
proof -
  have "concat (map (\<lambda>i. concat (map (\<lambda>j. if (i, j) \<in> set (lb_A m) then [(i, j)] else []) ys)) zs)
      = filter (\<lambda>a. a \<in> set (lb_A m)) (List.product zs ys)" for ys zs :: "string list"
    by (induction zs) (simp_all add: inner_comprehension_filter [of "\<lambda>a. a \<in> set (lb_A m)"])
  then show ?thesis by (simp add: arcs_in_S_def)
qed

lemma sum_arcs_in_S:
  assumes "distinct S"
  shows "(\<Sum>(i, j)\<leftarrow>arcs_in_S m S. v (VX i j)) =
     (\<Sum>(i, j)\<in>{(i, j). (i, j) \<in> set (lb_A m) \<and> i \<in> set S \<and> j \<in> set S}. v (VX i j))"
proof -
  have "distinct (arcs_in_S m S)"
    using assms by (simp add: arcs_in_S_product distinct_product)
  moreover have "set (arcs_in_S m S) = {(i, j). (i, j) \<in> set (lb_A m) \<and> i \<in> set S \<and> j \<in> set S}"
    by (auto simp: arcs_in_S_product)
  ultimately show ?thesis
    using sum_list_distinct_conv_sum_set [of "arcs_in_S m S" "\<lambda>(i, j). v (VX i j)"] by simp
qed

lemma generate_s_sets_Inr:
  assumes "generate_s_sets d = Inr ss" "d ''P'' = Some (DStrs P)" "d ''D'' = Some (DStrs D)"
    "d ''Requests'' = Some (DInts Requests)"
  shows "ss = s_sets Requests P D"
proof -
  have "s_sets Requests [] [] = []"
    by (simp add: s_sets_def)
  with assms show ?thesis
    by (auto simp: generate_s_sets_def get_key_def as_strs_def as_ints_def split: if_splits)
qed

lemma lb_constrain_precedence:
  assumes "lb_constrain d m0 = Inr m"
  shows "\<exists>ss. generate_s_sets d = Inr ss \<and> lb_S_Sets m = zip [0 ..< length ss] ss \<and>
     emap (precedence_pairing m) [0 ..< length ss] = Inr (lb_precedence_pairing m)"
proof -
  from assms obtain ss pp where ss: "generate_s_sets d = Inr ss"
    and pp: "emap (precedence_pairing
                (m0 \<lparr> lb_S_Indices := [0 ..< length ss], lb_S_Sets := zip [0 ..< length ss] ss \<rparr>))
              [0 ..< length ss] = Inr pp"
    and m: "lb_S_Sets m = zip [0 ..< length ss] ss" "lb_precedence_pairing m = pp"
      "lb_A m = lb_A m0"
    by (auto simp: lb_constrain_def ebind_Inr_iff Let_def)
  have a: "arcs_in_S m S =
      arcs_in_S (m0 \<lparr> lb_S_Indices := [0 ..< length ss], lb_S_Sets := zip [0 ..< length ss] ss \<rparr>) S"
    for S
    using m by (simp add: arcs_in_S_def)
  have "precedence_pairing m =
      precedence_pairing (m0 \<lparr> lb_S_Indices := [0 ..< length ss], lb_S_Sets := zip [0 ..< length ss] ss \<rparr>)"
    using m a by (simp add: precedence_pairing_def fun_eq_iff cong: option.case_cong)
  with ss pp m show ?thesis by simp
qed

lemma precedence_pairing_at:
  assumes "lb_S_Sets m = zip [0 ..< length ss] ss" "idx < length ss"
  shows "precedence_pairing m idx =
     Inr (Le (Sum [Var (VX i j). (i, j) \<leftarrow> arcs_in_S m (ss ! idx)])
             (Const (real (length (ss ! idx)) - 2)))"
proof -
  have "map_of (zip [0 ..< length ss] ss) ([0 ..< length ss] ! idx) = Some (ss ! idx)"
    using assms(2) by (intro map_of_zip_nth) simp_all
  with assms show ?thesis
    by (simp add: precedence_pairing_def)
qed

lemma eval_sum_arcs:
  "eval v (Sum [Var (VX i j). (i, j) \<leftarrow> arcs]) = (\<Sum>(i, j)\<leftarrow>arcs. v (VX i j))"
  by (simp add: comp_def split_def)

lemma lb_built_precedence:
  assumes h: "lb_build_model d = Inr m" "d ''Requests'' = Some (DInts Requests)"
    "d ''P'' = Some (DStrs P)" "d ''D'' = Some (DStrs D)"
  shows "map snd (lb_S_Sets m) = s_sets Requests P D \<and>
      list_all2 (\<lambda>S c. \<forall>v. holds v c \<longleftrightarrow>
          (\<Sum>(i, j)\<in>{(i, j). (i, j) \<in> set (lb_A m) \<and> i \<in> set S \<and> j \<in> set S}. v (VX i j))
            \<le> real (card (set S)) - 2)
        (s_sets Requests P D) (lb_precedence_pairing m)"
proof -
  from lb_build_declared [OF h(1)] obtain m0 where "lb_constrain d m0 = Inr m"
    by blast
  from lb_constrain_precedence [OF this] obtain ss where
    g: "generate_s_sets d = Inr ss" and z: "lb_S_Sets m = zip [0 ..< length ss] ss"
    and pp: "emap (precedence_pairing m) [0 ..< length ss] = Inr (lb_precedence_pairing m)"
    by blast
  from generate_s_sets_Inr [OF g h(3) h(4) h(2)] have ss: "ss = s_sets Requests P D" .
  from emap_list_all2 [OF pp]
  have len: "length (lb_precedence_pairing m) = length ss"
    and at: "\<And>idx. idx < length ss \<Longrightarrow>
      precedence_pairing m idx = Inr (lb_precedence_pairing m ! idx)"
    by (auto simp: list_all2_conv_all_nth)
  have "\<forall>v. holds v (lb_precedence_pairing m ! idx) \<longleftrightarrow>
        (\<Sum>(i, j)\<in>{(i, j). (i, j) \<in> set (lb_A m) \<and> i \<in> set (ss ! idx) \<and> j \<in> set (ss ! idx)}.
            v (VX i j))
          \<le> real (card (set (ss ! idx))) - 2"
    if idx: "idx < length ss" for idx
  proof -
    from idx ss have dS: "distinct (ss ! idx)"
      using distinct_s_sets_member [of "ss ! idx" Requests P D] by simp
    from at [OF idx] precedence_pairing_at [OF z idx]
    have "lb_precedence_pairing m ! idx =
        Le (Sum [Var (VX i j). (i, j) \<leftarrow> arcs_in_S m (ss ! idx)])
           (Const (real (length (ss ! idx)) - 2))"
      by simp
    then have "holds v (lb_precedence_pairing m ! idx) \<longleftrightarrow>
        (\<Sum>(i, j)\<in>{(i, j). (i, j) \<in> set (lb_A m) \<and> i \<in> set (ss ! idx) \<and> j \<in> set (ss ! idx)}.
            v (VX i j))
          \<le> real (card (set (ss ! idx))) - 2" for v
      using sum_arcs_in_S [OF dS, of v m] distinct_card [OF dS]
      by (simp add: eval_sum_arcs del: eval.simps(6))
    then show ?thesis by blast
  qed
  with len z ss show ?thesis
    by (simp add: list_all2_conv_all_nth)
qed

text \<open>
  C3. The subsets generated for the precedence constraints are, as sets, exactly the
  sets \<open>T \<union> {start depot}\<close> with \<open>T\<close> a set of customer nodes such that the subset
  contains the delivery node of some request and not its pickup node. When the customer
  nodes are pairwise distinct and none is the start depot, no subset is generated twice.
  In every model the builder returns, the precedence family has one constraint for each
  generated subset \<open>S\<close>, in order, and it says that the sum of \<open>x[i,j]\<close> over the valid arcs
  with both ends in \<open>S\<close> is at most \<open>|S| - 2\<close>.
\<close>

theorem precedence_subsets_and_constraints:
  "set ` set (s_sets Requests P D) =
     {insert ''0_start'' T | T. T \<subseteq> set P \<union> set D \<and>
        (\<exists>i\<in>set Requests. delivery_name i \<in> insert ''0_start'' T \<and>
                            pickup_name i \<notin> insert ''0_start'' T)} \<and>
   (distinct (P @ D) \<and> ''0_start'' \<notin> set (P @ D) \<longrightarrow> distinct (map set (s_sets Requests P D))) \<and>
   (lb_build_model d = Inr m \<and> d ''Requests'' = Some (DInts Requests) \<and>
    d ''P'' = Some (DStrs P) \<and> d ''D'' = Some (DStrs D) \<longrightarrow>
      map snd (lb_S_Sets m) = s_sets Requests P D \<and>
      list_all2 (\<lambda>S c. \<forall>v. holds v c \<longleftrightarrow>
          (\<Sum>(i, j)\<in>{(i, j). (i, j) \<in> set (lb_A m) \<and> i \<in> set S \<and> j \<in> set S}. v (VX i j))
            \<le> real (card (set S)) - 2)
        (s_sets Requests P D) (lb_precedence_pairing m))"
proof -
  show ?thesis
    using set_s_sets [of Requests P D] distinct_map_set_s_sets [of P D Requests]
      lb_built_precedence [of d m Requests P D]
    by blast
qed

lemma ex_s_sets: "s_sets [1] [''1+''] [''1-''] = [[''1-'', ''0_start'']]"
  by (simp add: s_sets_def s_sets_of_size_def tuple_of_set_def has_delivery_without_pickup_def
      request_1_names Let_def)

theorem precedence_subsets_and_constraints_witness:
  "distinct ([''1+''] @ [''1-'']) \<and> ''0_start'' \<notin> set ([''1+''] @ [''1-'']) \<and>
   lb_build_model ex_lb_data = Inr (lb_self_model ex_lb_object) \<and>
   s_sets [1] [''1+''] [''1-''] = [[''1-'', ''0_start'']] \<and>
   distinct (map set (s_sets [1] [''1+''] [''1-''])) \<and>
   map snd (lb_S_Sets (lb_self_model ex_lb_object)) = [[''1-'', ''0_start'']] \<and>
   list_all2 (\<lambda>S c. \<forall>v. holds v c \<longleftrightarrow>
       (\<Sum>(i, j)\<in>{(i, j). (i, j) \<in> set (lb_A (lb_self_model ex_lb_object)) \<and>
                            i \<in> set S \<and> j \<in> set S}. v (VX i j))
         \<le> real (card (set S)) - 2)
     [[''1-'', ''0_start'']] (lb_precedence_pairing (lb_self_model ex_lb_object))"
  using precedence_subsets_and_constraints
      [of "[1]" "[''1+'']" "[''1-'']" ex_lb_data "lb_self_model ex_lb_object"]
    ex_lb_build ex_s_sets
  by (simp add: ex_lb_data_def)

subsection \<open>Fleet limit\<close>

lemma lb_built_fleet_limit:
  assumes "lb_build_model d = Inr m"
  shows "lb_fleet_limit m = [fleet_limit m]"
proof -
  from lb_build_declared [OF assms] obtain m0 where m: "lb_constrain d m0 = Inr m"
    by blast
  then have "lb_fleet_limit m = [fleet_limit m0]" "lb_P m = lb_P m0" "lb_A m = lb_A m0"
    "lb_K m = lb_K m0"
    by (auto simp: lb_constrain_def ebind_Inr_iff Let_def fleet_limit_def)
  then show ?thesis by (simp add: fleet_limit_def)
qed

lemma feasible_holds:
  "lb_feasible m v \<Longrightarrow> c \<in> set (lb_constraints m) \<Longrightarrow> holds v c"
  by (simp add: lb_feasible_def list_all_iff)

lemma feasible_binary:
  "lb_feasible m v \<Longrightarrow> (i, j) \<in> set (lb_A m) \<Longrightarrow> v (VX i j) = 0 \<or> v (VX i j) = 1"
  by (auto simp: lb_feasible_def lb_domains_def list_all_iff)

lemma comprehension_filter_map:
  "concat (map (\<lambda>j. if Q j then [f j] else []) ys) = map f (filter Q ys)"
  by (induction ys) auto

lemma pickup_departures_bound:
  assumes "lb_build_model d = Inr m" "lb_feasible m v"
  shows "pickup_departures m v \<le> lb_K m"
proof -
  have "fleet_limit m \<in> set (lb_constraints m)"
    using lb_built_fleet_limit [OF assms(1)] by (simp add: lb_constraints_def)
  from feasible_holds [OF assms(2) this] show ?thesis
    by (simp add: fleet_limit_def pickup_departures_def comp_def
        comprehension_filter_map [of "\<lambda>j. (''0_start'', j) \<in> set (lb_A m)"])
qed

lemma pickup_name_not_start: "pickup_name i \<noteq> ''0_start''"
proof
  assume "pickup_name i = ''0_start''"
  then have "last (pickup_name i) = last ''0_start''" by simp
  then show False by (simp add: pickup_name_def)
qed

lemma pickup_name_not_delivery: "pickup_name i \<noteq> delivery_name k"
proof
  assume "pickup_name i = delivery_name k"
  then have "last (pickup_name i) = last (delivery_name k)" by simp
  then show False by (simp add: pickup_name_def delivery_name_def)
qed

lemma lb_built_sets:
  assumes "lb_build_model d = Inr m" "d ''P'' = Some (DStrs P)" "d ''D'' = Some (DStrs D)"
  shows "lb_J m = build_J P D" "lb_A m = build_A (build_J P D)" "lb_P m = pyomo_set P"
    "map fst (lb_x m) = lb_A m" "map fst (lb_B m) = lb_J m" "map fst (lb_Q m) = lb_J m"
proof -
  from lb_build_declared [OF assms(1)] obtain Requests P' D' c t s q e l L Q_max K where
    "d ''P'' = Some (DStrs P')" "d ''D'' = Some (DStrs D')"
    and m: "lb_constrain d (lb_declare Requests P' D' c t s q e l L Q_max K) = Inr m"
    by blast
  with assms have "P' = P" "D' = D" by simp_all
  with lb_constrain_frame [OF m]
  show "lb_J m = build_J P D" "lb_A m = build_A (build_J P D)" "lb_P m = pyomo_set P"
    "map fst (lb_x m) = lb_A m" "map fst (lb_B m) = lb_J m" "map fst (lb_Q m) = lb_J m"
    by (simp_all add: lb_declare_def Let_def comp_def)
qed

lemma list_all2_in_set: "list_all2 R ys zs \<Longrightarrow> y \<in> set ys \<Longrightarrow> \<exists>z\<in>set zs. R y z"
  by (induction rule: list_all2_induct) auto

lemma delivery_arc_unselected:
  assumes b: "lb_build_model d = Inr m" and k: "d ''Requests'' = Some (DInts Requests)"
    "d ''P'' = Some (DStrs P)" "d ''D'' = Some (DStrs D)"
    and f: "lb_feasible m v"
    and j: "j \<in> set D" "j = delivery_name i" "i \<in> set Requests"
  shows "v (VX ''0_start'' j) = 0"
proof -
  note sets = lb_built_sets [OF b k(2,3)]
  have jn: "j \<noteq> ''0_start''" using j(2) delivery_name_not_start by simp
  have "(''0_start'', j) \<in> set (build_A (build_J P D))"
    using j(1) jn by (simp add: set_build_A set_build_J)
  then have arc: "(''0_start'', j) \<in> set (lb_A m)"
    by (simp add: sets(2))
  have "insert ''0_start'' {j} \<in> set ` set (s_sets Requests P D)"
    unfolding set_s_sets using j pickup_name_not_start pickup_name_not_delivery
    by (intro CollectI exI [of _ "{j}"]) auto
  then obtain S where S: "S \<in> set (s_sets Requests P D)" "set S = {''0_start'', j}"
    by auto
  from lb_built_precedence [OF b k]
  have "list_all2 (\<lambda>S c. \<forall>v. holds v c \<longleftrightarrow>
          (\<Sum>(i, j)\<in>{(i, j). (i, j) \<in> set (lb_A m) \<and> i \<in> set S \<and> j \<in> set S}. v (VX i j))
            \<le> real (card (set S)) - 2)
        (s_sets Requests P D) (lb_precedence_pairing m)"
    by simp
  from list_all2_in_set [OF this S(1)] obtain c where c: "c \<in> set (lb_precedence_pairing m)"
    and hc: "\<forall>v. holds v c \<longleftrightarrow>
          (\<Sum>(i, j)\<in>{(i, j). (i, j) \<in> set (lb_A m) \<and> i \<in> set S \<and> j \<in> set S}. v (VX i j))
            \<le> real (card (set S)) - 2"
    by blast
  have "c \<in> set (lb_constraints m)" using c by (simp add: lb_constraints_def)
  from feasible_holds [OF f this] hc
  have le: "(\<Sum>(i, j)\<in>{(i, j). (i, j) \<in> set (lb_A m) \<and> i \<in> set S \<and> j \<in> set S}. v (VX i j))
            \<le> real (card (set S)) - 2"
    by simp
  have "{(a, b). (a, b) \<in> set (lb_A m) \<and> a \<in> set S \<and> b \<in> set S} = {(''0_start'', j)}"
    using arc unfolding S(2) by (auto simp: sets(2) set_build_A)
  moreover have "card (set S) = 2" unfolding S(2) using jn by simp
  ultimately have "v (VX ''0_start'' j) \<le> 0" using le by simp
  with feasible_binary [OF f arc] show ?thesis by auto
qed

lemma customer_departures_bound:
  assumes b: "lb_build_model d = Inr m" and k: "d ''Requests'' = Some (DInts Requests)"
    "d ''D'' = Some (DStrs D)"
    and wf: "set D \<subseteq> delivery_name ` set Requests"
    and f: "lb_feasible m v"
  shows "customer_departures m v \<le> lb_K m"
proof -
  from lb_build_declared [OF b] obtain P where kP: "d ''P'' = Some (DStrs P)"
    by blast
  note sets = lb_built_sets [OF b kP k(2)]
  define Jc where "Jc = {j \<in> set (lb_J m). (''0_start'', j) \<in> set (lb_A m) \<and> j \<noteq> ''0_end''}"
  define Pc where "Pc = {j \<in> set (lb_P m). (''0_start'', j) \<in> set (lb_A m)}"
  have dJ: "distinct (lb_J m)" by (simp add: sets(1) build_J_def)
  have dP: "distinct (lb_P m)" by (simp add: sets(3))
  have cd: "customer_departures m v = (\<Sum>j\<in>Jc. v (VX ''0_start'' j))"
    unfolding customer_departures_def Jc_def
    using sum_list_distinct_conv_sum_set [of "filter (\<lambda>j. (''0_start'', j) \<in> set (lb_A m) \<and> j \<noteq> ''0_end'') (lb_J m)"
        "\<lambda>j. v (VX ''0_start'' j)"] dJ
    by simp
  have pd: "pickup_departures m v = (\<Sum>j\<in>Pc. v (VX ''0_start'' j))"
    unfolding pickup_departures_def Pc_def
    using sum_list_distinct_conv_sum_set [of "filter (\<lambda>j. (''0_start'', j) \<in> set (lb_A m)) (lb_P m)"
        "\<lambda>j. v (VX ''0_start'' j)"] dP
    by simp
  have zero: "v (VX ''0_start'' j) = 0" if "j \<in> Jc - (Jc \<inter> Pc)" for j
  proof -
    from that have j: "j \<in> set (lb_J m)" "(''0_start'', j) \<in> set (lb_A m)" "j \<noteq> ''0_end''"
      "j \<notin> set (lb_P m)"
      by (auto simp: Jc_def Pc_def)
    from j(2) have "j \<noteq> ''0_start''" by (simp add: sets(2) set_build_A)
    with j have "j \<in> set D" by (auto simp: sets set_build_J)
    with wf obtain i where "i \<in> set Requests" "j = delivery_name i" by auto
    with delivery_arc_unselected [OF b k(1) kP k(2) f \<open>j \<in> set D\<close>] show ?thesis
      by blast
  qed
  have nonneg: "0 \<le> v (VX ''0_start'' j)" if "j \<in> Pc - (Jc \<inter> Pc)" for j
    using that feasible_binary [OF f, of "''0_start''" j] by (auto simp: Pc_def)
  have "(\<Sum>j\<in>Jc. v (VX ''0_start'' j)) = (\<Sum>j\<in>Jc \<inter> Pc. v (VX ''0_start'' j))"
  proof (rule sum.mono_neutral_right)
    show "finite Jc" by (simp add: Jc_def)
    show "Jc \<inter> Pc \<subseteq> Jc" by blast
    show "\<forall>j\<in>Jc - Jc \<inter> Pc. v (VX ''0_start'' j) = 0" using zero by blast
  qed
  also have "\<dots> \<le> (\<Sum>j\<in>Pc. v (VX ''0_start'' j))"
  proof (rule sum_mono2)
    show "finite Pc" by (simp add: Pc_def)
    show "Jc \<inter> Pc \<subseteq> Pc" by blast
    show "0 \<le> v (VX ''0_start'' j)" if "j \<in> Pc - Jc \<inter> Pc" for j
      using nonneg that by blast
  qed
  finally show ?thesis
    using pickup_departures_bound [OF b f] by (simp add: cd pd)
qed

lemma ex_extra_departure_feasible:
  "lb_feasible (lb_self_model ex_lb_object) ex_extra_departure"
  by (simp add: ex_lb_object_def lb_build_eval lb_feasible_def lb_domains_def lb_constraints_def
      ex_extra_departure_def ex_B_def ex_Q_def)

text \<open>
  What the fleet-limit rule does bound. For every assignment feasible for a built LB model,
  the sum of \<open>x['0_start', j]\<close> over the pickup nodes \<open>j\<close> is at most \<open>K\<close>; and when every
  node of \<open>D\<close> is the delivery node of some request, so is the sum over all arcs from the
  start depot into customer nodes, because the precedence constraints force the arcs into
  delivery nodes to 0. The rule does not mention the direct arc to the end depot.
\<close>

lemma fleet_limit_bounds_customer_departures:
  "(lb_build_model d = Inr m \<and> lb_feasible m v \<longrightarrow> pickup_departures m v \<le> lb_K m) \<and>
   (lb_build_model d = Inr m \<and> d ''Requests'' = Some (DInts Requests) \<and>
    d ''D'' = Some (DStrs D) \<and> set D \<subseteq> delivery_name ` set Requests \<and> lb_feasible m v \<longrightarrow>
      customer_departures m v \<le> lb_K m)"
  using pickup_departures_bound [of d m v] customer_departures_bound [of d m Requests D v]
  by blast

subsection \<open>Reconstruction on a solved model\<close>

lemma map_of_loaded:
  "k \<in> fst ` set store \<Longrightarrow> map_of (map (\<lambda>(k, _). (k, Some (f k))) store) k = Some (Some (f k))"
  by (induction store) auto

lemma value_of_loaded:
  "k \<in> fst ` set store \<Longrightarrow> value_of name (map (\<lambda>(k, _). (k, Some (f k))) store) k = Inr (f k)"
  by (simp add: value_of_def map_of_loaded)

lemma lb_collect_routes_loaded:
  assumes "lb_x m' = map (\<lambda>(a, _). (a, Some (v (VX (fst a) (snd a))))) xs"
    "lb_B m' = map (\<lambda>(j, _). (j, Some (v (VB j)))) bs"
    "lb_Q m' = map (\<lambda>(j, _). (j, Some (v (VQ j)))) qs"
    "set arcs \<subseteq> fst ` set xs"
    "\<forall>(i, j)\<in>set arcs. i \<in> fst ` set bs \<and> j \<in> fst ` set bs \<and> j \<in> fst ` set qs"
  shows "lb_collect_routes m' (map (\<lambda>a. (a, y a)) arcs) = Inr (selected_legs v arcs)"
  using assms(4,5)
proof (induction arcs)
  case Nil
  then show ?case by (simp add: selected_legs_def)
next
  case (Cons a arcs)
  obtain i j where a: "a = (i, j)" by (cases a)
  from Cons.prems a have k: "(i, j) \<in> fst ` set xs" "i \<in> fst ` set bs" "j \<in> fst ` set bs"
    "j \<in> fst ` set qs"
    by auto
  have vx: "value_of ''x'' (lb_x m') (i, j) = Inr (v (VX i j))"
    using value_of_loaded [OF k(1), of "''x''" "\<lambda>a. v (VX (fst a) (snd a))"] by (simp add: assms(1))
  have vb: "value_of ''B'' (lb_B m') i = Inr (v (VB i))" "value_of ''B'' (lb_B m') j = Inr (v (VB j))"
    using value_of_loaded [OF k(2), of "''B''" "\<lambda>j. v (VB j)"]
      value_of_loaded [OF k(3), of "''B''" "\<lambda>j. v (VB j)"] by (simp_all add: assms(2))
  have vq: "value_of ''Q'' (lb_Q m') j = Inr (v (VQ j))"
    using value_of_loaded [OF k(4), of "''Q''" "\<lambda>j. v (VQ j)"] by (simp add: assms(3))
  from Cons have "lb_collect_routes m' (map (\<lambda>a. (a, y a)) arcs) = Inr (selected_legs v arcs)"
    by simp
  then show ?case
    by (simp add: a vx vb vq selected_legs_def)
qed

lemma lb_built_stores:
  assumes "lb_build_model d = Inr m"
  shows "lb_x m = map (\<lambda>a. (a, None)) (lb_A m)" "lb_B m = map (\<lambda>j. (j, None)) (lb_J m)"
    "lb_Q m = map (\<lambda>j. (j, None)) (lb_J m)" "''x'' \<in> set (lb_components m)"
    "set (lb_A m) \<subseteq> set (lb_J m) \<times> set (lb_J m)"
    "\<And>i. (i, ''0_start'') \<notin> set (lb_A m)"
proof -
  from lb_build_declared [OF assms] obtain Requests P D c t s q e l L Q_max K where
    m: "lb_constrain d (lb_declare Requests P D c t s q e l L Q_max K) = Inr m"
    by blast
  note f = lb_constrain_frame [OF m]
  show "lb_x m = map (\<lambda>a. (a, None)) (lb_A m)" "lb_B m = map (\<lambda>j. (j, None)) (lb_J m)"
    "lb_Q m = map (\<lambda>j. (j, None)) (lb_J m)" "''x'' \<in> set (lb_components m)"
    unfolding f by (simp_all add: lb_declare_def Let_def lb_component_names_def)
  have A: "lb_A m = build_A (lb_J m)"
    unfolding f by (simp add: lb_declare_def Let_def)
  show "set (lb_A m) \<subseteq> set (lb_J m) \<times> set (lb_J m)"
    by (subst A) (auto simp: set_build_A)
  show "(i, ''0_start'') \<notin> set (lb_A m)" for i
    by (subst A) (simp add: set_build_A)
qed

lemma lb_init_build: "lb_init d = Inr self \<Longrightarrow> lb_build_model d = Inr (lb_self_model self)"
  by (auto simp: lb_init_def ebind_Inr_iff)

lemma lb_summary_loaded:
  assumes "lb_init d = Inr self"
  shows "lb_get_route_summary (lb_load_solution v self) =
     (case lb_group (selected_legs v (lb_A (lb_self_model self)))
             (selected_legs v (lb_A (lb_self_model self))) [] of
        None \<Rightarrow> None
      | Some summary \<Rightarrow> Some (Inr (Routes summary)))"
proof -
  define m where "m = lb_self_model self"
  define m' where "m' = lb_self_model (lb_load_solution v self)"
  note st = lb_built_stores [OF lb_init_build [OF assms], folded m_def]
  have x': "lb_x m' = map (\<lambda>(a, _). (a, Some (v (VX (fst a) (snd a))))) (lb_x m)"
    and B': "lb_B m' = map (\<lambda>(j, _). (j, Some (v (VB j)))) (lb_B m)"
    and Q': "lb_Q m' = map (\<lambda>(j, _). (j, Some (v (VQ j)))) (lb_Q m)"
    and c': "lb_components m' = lb_components m"
    by (simp_all add: m'_def m_def lb_load_solution_def case_prod_beta)
  have arg: "lb_x m' = map (\<lambda>a. (a, Some (v (VX (fst a) (snd a))))) (lb_A m)"
    by (simp add: x' st(1) comp_def)
  have "lb_collect_routes m' (map (\<lambda>a. (a, Some (v (VX (fst a) (snd a))))) (lb_A m)) =
      Inr (selected_legs v (lb_A m))"
  proof (rule lb_collect_routes_loaded [OF x' B' Q'])
    show "set (lb_A m) \<subseteq> fst ` set (lb_x m)"
      by (simp add: st(1) image_comp comp_def)
    show "\<forall>(i, j)\<in>set (lb_A m). i \<in> fst ` set (lb_B m) \<and> j \<in> fst ` set (lb_B m) \<and>
        j \<in> fst ` set (lb_Q m)"
      using st(5) by (auto simp: st(2,3) image_comp comp_def)
  qed
  then have "lb_collect_routes m' (lb_x m') = Inr (selected_legs v (lb_A m))"
    by (simp only: arg)
  then show ?thesis
    using st(4) by (simp add: lb_get_route_summary_def Let_def m'_def [symmetric] m_def [symmetric] c')
qed

subsection \<open>Termination of the walks\<close>







subsection \<open>The example instances, reconstructed\<close>


lemma ex_lb_route_summary:
  "lb_get_route_summary (lb_load_solution ex_route ex_lb_object) =
     Some (Inr (Routes [(''1+'', [''0_start'', ''1+'', ''1-'', ''0_end''], [0, 5, 15, 30], [0, 1, 0, 0])]))"
  by (simp add: lb_summary_loaded [OF ex_lb_init] selected_legs_def ex_lb_model_fields
      ex_route_def ex_B_def ex_Q_def lb_walk.simps)


lemma ex_lb_unsolved_summary:
  "lb_get_route_summary ex_lb_object = Some (Inl (UninitializedValue ''x''))"
  by (simp add: lb_get_route_summary_def ex_lb_model_fields lb_component_names_def value_of_def)

subsection \<open>The summary key is in range\<close>



subsection \<open>What a walk returns and where it is recorded\<close>








subsection \<open>The fleet limit on the single-request instance\<close>

lemma ex_lb_extra_departure_summary:
  "lb_get_route_summary (lb_load_solution ex_extra_departure ex_lb_object) =
     Some (Inr (Routes
       [(''1+'', [''0_start'', ''1+'', ''1-'', ''0_end''], [0, 5, 15, 30], [0, 1, 0, 0]),
        (''0_end'', [''0_start'', ''0_end''], [0, 30], [0, 0])]))"
  by (simp add: lb_summary_loaded [OF ex_lb_init] selected_legs_def ex_lb_model_fields
      ex_extra_departure_def ex_B_def ex_Q_def lb_walk.simps)

lemma ex_objective_values:
  "eval ex_extra_departure (lb_obj (lb_self_model ex_lb_object)) = 18"
  "eval ex_route (lb_obj (lb_self_model ex_lb_object)) = 18"
  by (simp_all add: ex_lb_object_def lb_build_eval ex_extra_departure_def ex_route_def)

text \<open>
  C1. The fleet-limit rule of darp_model.py sums \<open>x['0_start', j]\<close> over the pickup nodes
  only, and no other constraint bounds the direct arc from the start depot to the end
  depot. In the single-request instance with \<open>K = 1\<close> the assignment that selects the
  intended route and also that direct arc is feasible, costs the same as the intended
  route alone, and has two selected arcs leaving the start depot; route reconstruction
  reports two vehicles for it.
\<close>

theorem fleet_limit_admits_extra_departure:
  "lb_init ex_lb_data = Inr ex_lb_object \<and>
   lb_K (lb_self_model ex_lb_object) = 1 \<and>
   lb_feasible (lb_self_model ex_lb_object) ex_extra_departure \<and>
   start_depot_departures (lb_self_model ex_lb_object) ex_extra_departure = 2 \<and>
   eval ex_extra_departure (lb_obj (lb_self_model ex_lb_object)) =
     eval ex_route (lb_obj (lb_self_model ex_lb_object)) \<and>
   lb_get_route_summary (lb_load_solution ex_extra_departure ex_lb_object) =
     Some (Inr (Routes
       [(''1+'', [''0_start'', ''1+'', ''1-'', ''0_end''], [0, 5, 15, 30], [0, 1, 0, 0]),
        (''0_end'', [''0_start'', ''0_end''], [0, 30], [0, 0])]))"
  using ex_lb_init ex_extra_departure_feasible ex_lb_extra_departure_summary ex_objective_values
  by (simp add: start_depot_departures_def ex_lb_model_fields ex_extra_departure_def)


subsection \<open>Claims about route reconstruction\<close>










text \<open>
  C8. The code at the failing input. A \<^verbatim>\<open>DARPModelLB\<close> object that has been constructed and
  never solved already has the attribute \<open>x\<close> (the constructor declares it), so the guard
  of \<^verbatim>\<open>get_route_summary\<close> does not fire: the message is not returned, the method goes on
  to read the variables and \<^verbatim>\<open>value\<close> raises on the first arc.
\<close>

theorem get_route_summary_before_solve:
  "lb_init ex_lb_data = Inr ex_lb_object \<and>
   ''x'' \<in> set (lb_components (lb_self_model ex_lb_object)) \<and>
   lb_get_route_summary ex_lb_object = Some (Inl (UninitializedValue ''x'')) \<and>
   lb_get_route_summary ex_lb_object \<noteq> Some (Inr (Message ''Model not solved yet.''))"
  using ex_lb_init ex_lb_unsolved_summary
  by (simp add: ex_lb_model_fields lb_component_names_def)

text \<open>The guard is dead on every object the constructor returns.\<close>

lemma constructed_model_never_reports_unsolved:
  "lb_init d = Inr self \<Longrightarrow> lb_get_route_summary self \<noteq> Some (Inr (Message msg))"
  using lb_built_stores(4) [OF lb_init_build, of d self]
  by (auto simp: lb_get_route_summary_def Let_def split: sum.splits option.splits)

end
